theory Spec2Isabelle
  imports Complex_Main "HOL-Library.AList" "HOL-Library.Sublist"
begin

section \<open>The responsiveStretch real-time-data provider\<close>

text \<open>
  A shallow embedding of \<^verbatim>\<open>modules/responsiveStretchProvider.js\<close>. The file holds
  two copies of the module: the first (lines 1-351) measures \<^verbatim>\<open>maxAvailableWidth\<close> and
  writes \<^verbatim>\<open>banner.wmax\<close>; the second (lines 353-698) measures the full geometry record
  and defers its work by one timer tick. Functions that differ between the copies are
  modelled twice; the first copy's carry the suffix \<open>_1\<close>.
\<close>

subsection \<open>JavaScript numbers and values\<close>

text \<open>
  A JavaScript number is an IEEE 754 double (binary64). A finite double is modelled as the
  rational it denotes, and the three non-finite values are kept. Every arithmetic
  operation rounds its exact result to the nearest double, ties to the even significand,
  as the hardware does; negative zero is not told apart from zero.
\<close>

datatype num = Finite rat | Infinity | NegInfinity | NaN

text \<open>The nearest integer, a tie going to the even one.\<close>

definition roundEven :: "rat \<Rightarrow> int" where
  "roundEven y =
     (let f = \<lfloor>y\<rfloor>; d = y - of_int f
      in if d < 1 / 2 then f else if 1 / 2 < d then f + 1 else if even f then f else f + 1)"

text \<open>
  The binary exponent of a positive magnitude \<open>a\<close>: the greatest \<open>e\<close> from - 1021 to
  1023 with \<open>2 powi e \<le> a\<close>, found from the top, and - 1022 (the exponent of the smallest
  normal and of the subnormal numbers) below that.
\<close>

fun expSearch :: "nat \<Rightarrow> rat \<Rightarrow> int" where
  "expSearch 0 a = - 1022"
| "expSearch (Suc n) a = (if 2 powi (int n - 1021) \<le> a then int n - 1021 else expSearch n a)"

definition expo :: "rat \<Rightarrow> int" where
  "expo a = expSearch 2045 a"

definition overflowThreshold :: rat where
  "overflowThreshold = 2 powi 1024"

text \<open>
  Rounding a real result to a double: to the nearest multiple of the unit in the last
  place (53 significant bits), and to an infinity when that reaches \<open>2 powi 1024\<close>.
\<close>

definition fl :: "rat \<Rightarrow> num" where
  "fl x =
     (let u = 2 powi (expo \<bar>x\<bar> - 52); r = of_int (roundEven (x / u)) * u
      in if overflowThreshold \<le> \<bar>r\<bar> then (if 0 < x then Infinity else NegInfinity) else Finite r)"

text \<open>\<^verbatim>\<open>a + b\<close> and \<^verbatim>\<open>a - b\<close>.\<close>

fun js_add :: "num \<Rightarrow> num \<Rightarrow> num" where
  "js_add (Finite a) (Finite b) = fl (a + b)"
| "js_add NaN _ = NaN"
| "js_add _ NaN = NaN"
| "js_add Infinity NegInfinity = NaN"
| "js_add NegInfinity Infinity = NaN"
| "js_add Infinity _ = Infinity"
| "js_add _ Infinity = Infinity"
| "js_add NegInfinity _ = NegInfinity"
| "js_add _ NegInfinity = NegInfinity"

fun js_sub :: "num \<Rightarrow> num \<Rightarrow> num" where
  "js_sub (Finite a) (Finite b) = fl (a - b)"
| "js_sub NaN _ = NaN"
| "js_sub _ NaN = NaN"
| "js_sub Infinity Infinity = NaN"
| "js_sub NegInfinity NegInfinity = NaN"
| "js_sub Infinity _ = Infinity"
| "js_sub NegInfinity _ = NegInfinity"
| "js_sub _ Infinity = NegInfinity"
| "js_sub _ NegInfinity = Infinity"

text \<open>\<^verbatim>\<open>a / b\<close>: the rounded quotient, or the IEEE result of dividing by zero or infinity.\<close>

fun js_div :: "num \<Rightarrow> num \<Rightarrow> num" where
  "js_div (Finite a) (Finite b) =
     (if b = 0 then (if a = 0 then NaN else if 0 < a then Infinity else NegInfinity)
      else fl (a / b))"
| "js_div NaN _ = NaN"
| "js_div _ NaN = NaN"
| "js_div (Finite a) _ = Finite 0"
| "js_div Infinity (Finite b) = (if 0 \<le> b then Infinity else NegInfinity)"
| "js_div NegInfinity (Finite b) = (if 0 \<le> b then NegInfinity else Infinity)"
| "js_div _ _ = NaN"

text \<open>\<^verbatim>\<open>a * b\<close>.\<close>

fun js_mul :: "num \<Rightarrow> num \<Rightarrow> num" where
  "js_mul (Finite a) (Finite b) = fl (a * b)"
| "js_mul NaN _ = NaN"
| "js_mul _ NaN = NaN"
| "js_mul (Finite a) Infinity = (if a = 0 then NaN else if 0 < a then Infinity else NegInfinity)"
| "js_mul (Finite a) NegInfinity = (if a = 0 then NaN else if 0 < a then NegInfinity else Infinity)"
| "js_mul Infinity (Finite b) = (if b = 0 then NaN else if 0 < b then Infinity else NegInfinity)"
| "js_mul NegInfinity (Finite b) = (if b = 0 then NaN else if 0 < b then NegInfinity else Infinity)"
| "js_mul Infinity Infinity = Infinity"
| "js_mul NegInfinity NegInfinity = Infinity"
| "js_mul _ _ = NegInfinity"

text \<open>
  \<^verbatim>\<open>Math.round\<close>: the nearest integer, halves rounded towards plus infinity. The result
  is exact: the integer nearest to a double is a double.
\<close>

fun Math_round :: "num \<Rightarrow> num" where
  "Math_round (Finite x) = Finite (of_int \<lfloor>x + 1 / 2\<rfloor>)"
| "Math_round n = n"

text \<open>\<^verbatim>\<open>Math.min\<close> of two numbers.\<close>

fun Math_min :: "num \<Rightarrow> num \<Rightarrow> num" where
  "Math_min NaN _ = NaN"
| "Math_min _ NaN = NaN"
| "Math_min NegInfinity _ = NegInfinity"
| "Math_min _ NegInfinity = NegInfinity"
| "Math_min Infinity b = b"
| "Math_min a Infinity = a"
| "Math_min (Finite a) (Finite b) = Finite (min a b)"

text \<open>
  The values the module builds and merges: JSON-like trees. An object is an association
  list in insertion order; \<^const>\<open>map_of\<close> reads a key and \<^const>\<open>AList.update\<close> assigns
  one (in place when the key exists, appended otherwise), as property assignment does.
\<close>

datatype jv =
    JNull
  | JBool bool
  | JNum num
  | JStr string
  | JArr "jv list"
  | JObj "(string \<times> jv) list"

type_synonym obj = "(string \<times> jv) list"

subsection \<open>The host environment: layout, viewport, elements\<close>

text \<open>
  \<^verbatim>\<open>getBoundingClientRect\<close> and \<^verbatim>\<open>getViewportSize\<close> are library calls into the
  browser; what they return is a parameter of the model. The fields keep the source's
  names behind a prefix (\<open>top\<close> is the lattice's top element in HOL).
\<close>

record rect =
  rect_width :: rat
  rect_height :: rat
  rect_top :: rat
  rect_left :: rat
  rect_right :: rat
  rect_bottom :: rat

record viewportSize =
  vp_width :: rat
  vp_height :: rat

record style =
  display :: string
  position :: string

text \<open>
  An element of the page: its bounding rectangle and computed style (\<open>None\<close> when reading
  it raises), whether it is \<^verbatim>\<open>document.body\<close>, and its \<^verbatim>\<open>parentElement\<close>
  (\<open>None\<close> for \<^verbatim>\<open>null\<close>).
\<close>

datatype element =
  Element (boundingClientRect: "rect option") (computedStyle: "style option")
          (isBody: bool) (parentElement: "element option")

datatype error = TypeError | HostError | CallbackError

subsection \<open>calculateAdSlotSpace (second copy, lines 387-445)\<close>

text \<open>Reading a layout: \<^verbatim>\<open>getBoundingClientRect(element)\<close>, which may raise.\<close>

definition getBoundingClientRect :: "element \<Rightarrow> error + rect" where
  "getBoundingClientRect el =
     (case boundingClientRect el of None \<Rightarrow> Inl HostError | Some r \<Rightarrow> Inr r)"

definition rnd :: "rat \<Rightarrow> jv" where
  "rnd x = JNum (Math_round (Finite x))"

definition rndNum :: "num \<Rightarrow> jv" where
  "rndNum n = JNum (Math_round n)"

text \<open>The object literal \<^verbatim>\<open>availableSpace\<close>, field by field in the source's order.\<close>

definition availableSpace :: "rect \<Rightarrow> viewportSize \<Rightarrow> rect option \<Rightarrow> obj" where
  "availableSpace r vs parent =
    [(''width'', rnd (rect_width r)),
     (''height'', rnd (rect_height r)),
     (''top'', rnd (rect_top r)),
     (''left'', rnd (rect_left r)),
     (''right'', rndNum (js_sub (Finite (vp_width vs)) (Finite (rect_right r)))),
     (''bottom'', rndNum (js_sub (Finite (vp_height vs)) (Finite (rect_bottom r)))),
     (''maxWidth'', rnd (vp_width vs)),
     (''maxHeight'', rnd (vp_height vs)),
     (''stretchLeft'', rnd (rect_left r)),
     (''stretchRight'', rndNum (js_sub (Finite (vp_width vs)) (Finite (rect_right r)))),
     (''stretchUp'', rnd (rect_top r)),
     (''stretchDown'', rndNum (js_sub (Finite (vp_height vs)) (Finite (rect_bottom r)))),
     (''totalAvailableWidth'',
        rndNum (js_add (js_add (Finite (rect_width r)) (Finite (rect_left r)))
                       (js_sub (Finite (vp_width vs)) (Finite (rect_right r))))),
     (''totalAvailableHeight'',
        rndNum (js_add (js_add (Finite (rect_height r)) (Finite (rect_top r)))
                       (js_sub (Finite (vp_height vs)) (Finite (rect_bottom r))))),
     (''viewportWidth'', rnd (vp_width vs)),
     (''viewportHeight'', rnd (vp_height vs)),
     (''isVisible'',
        JBool (rect_width r > 0 \<and> rect_height r > 0 \<and>
               rect_bottom r > 0 \<and> rect_right r > 0 \<and>
               rect_top r < vp_height vs \<and> rect_left r < vp_width vs)),
     (''viewportWidthPercentage'',
        rndNum (js_mul (js_div (Finite (rect_width r)) (Finite (vp_width vs))) (Finite 100))),
     (''viewportHeightPercentage'',
        rndNum (js_mul (js_div (Finite (rect_height r)) (Finite (vp_height vs))) (Finite 100))),
     (''parentWidth'', (case parent of None \<Rightarrow> JNull | Some p \<Rightarrow> rnd (rect_width p))),
     (''parentHeight'', (case parent of None \<Rightarrow> JNull | Some p \<Rightarrow> rnd (rect_height p)))]"

text \<open>
  The body of the \<^verbatim>\<open>try\<close> block: the element's rectangle is read first, then the
  parent's (once for each of the two parent fields; both reads see the same layout).
\<close>

definition measureBody :: "viewportSize \<Rightarrow> element \<Rightarrow> error + obj" where
  "measureBody vs el =
     (case getBoundingClientRect el of
        Inl e \<Rightarrow> Inl e
      | Inr r \<Rightarrow>
          (case parentElement el of
             None \<Rightarrow> Inr (availableSpace r vs None)
           | Some p \<Rightarrow>
               (case getBoundingClientRect p of
                  Inl e \<Rightarrow> Inl e
                | Inr pr \<Rightarrow> Inr (availableSpace r vs (Some pr)))))"

text \<open>
  \<^verbatim>\<open>calculateAdSlotSpace(element)\<close>: \<open>None\<close> is the \<^verbatim>\<open>null\<close> result. The
  \<^verbatim>\<open>catch\<close> turns every error of the body into \<^verbatim>\<open>null\<close>.
\<close>

definition calculateAdSlotSpace :: "viewportSize \<Rightarrow> element option \<Rightarrow> obj option" where
  "calculateAdSlotSpace vs element =
     (case element of
        None \<Rightarrow> None
      | Some el \<Rightarrow> (case measureBody vs el of Inl e \<Rightarrow> None | Inr space \<Rightarrow> Some space))"

text \<open>Reading a field of a measurement record.\<close>

definition field :: "obj option \<Rightarrow> string \<Rightarrow> jv option" where
  "field m k = (case m of None \<Rightarrow> None | Some kvs \<Rightarrow> map_of kvs k)"

subsection \<open>findAdSlotElement and collectResponsiveStretchData\<close>

text \<open>
  The document, as the two lookups the module uses. Either may raise (an unsupported
  selector) or return \<^verbatim>\<open>null\<close>.
\<close>

record document =
  getElementById :: "string \<Rightarrow> error + element option"
  querySelector :: "string \<Rightarrow> error + element option"

text \<open>The six strategies, in the source's order, each already applied to the document.\<close>

definition strategies :: "document \<Rightarrow> string \<Rightarrow> (error + element option) list" where
  "strategies doc adUnitCode =
    [getElementById doc adUnitCode,
     querySelector doc (''[id=\"'' @ adUnitCode @ ''\"]''),
     querySelector doc (''[data-ad-unit-code=\"'' @ adUnitCode @ ''\"]''),
     querySelector doc (''[data-adunitcode=\"'' @ adUnitCode @ ''\"]''),
     querySelector doc (''div[id*=\"'' @ adUnitCode @ ''\"]''),
     querySelector doc (''div[class*=\"'' @ adUnitCode @ ''\"]'')]"

text \<open>The loop over the strategies: an error or \<^verbatim>\<open>null\<close> moves on to the next one.\<close>

fun firstElement :: "(error + element option) list \<Rightarrow> element option" where
  "firstElement [] = None"
| "firstElement (Inr (Some el) # rest) = Some el"
| "firstElement (_ # rest) = firstElement rest"

definition findAdSlotElement :: "document \<Rightarrow> string \<Rightarrow> element option" where
  "findAdSlotElement doc adUnitCode = firstElement (strategies doc adUnitCode)"

text \<open>
  An ad unit: its \<^verbatim>\<open>code\<close> (the empty string is the falsy code), its
  \<^verbatim>\<open>ortb2Imp\<close> (\<open>None\<close> when the key is missing) and every other key it carries.
\<close>

record adUnit =
  code :: string
  ortb2Imp :: "obj option"
  adUnit_other :: obj

text \<open>
  One round of the \<^verbatim>\<open>forEach\<close> of \<^verbatim>\<open>collectResponsiveStretchData\<close>, for a given
  measuring function.
\<close>

definition collectStep ::
  "(element option \<Rightarrow> obj option) \<Rightarrow> document \<Rightarrow> obj \<Rightarrow> adUnit \<Rightarrow> obj" where
  "collectStep calc doc stretchData u =
     (if code u = [] then stretchData
      else (case calc (findAdSlotElement doc (code u)) of
              None \<Rightarrow> stretchData
            | Some spaceData \<Rightarrow> AList.update (code u) (JObj spaceData) stretchData))"

text \<open>
  \<^verbatim>\<open>collectResponsiveStretchData(adUnits)\<close>; \<open>None\<close> is an argument that is missing
  or not an array.
\<close>

definition collectResponsiveStretchData ::
  "viewportSize \<Rightarrow> document \<Rightarrow> adUnit list option \<Rightarrow> obj" where
  "collectResponsiveStretchData vs doc adUnits =
     (case adUnits of
        None \<Rightarrow> []
      | Some us \<Rightarrow> foldl (collectStep (calculateAdSlotSpace vs) doc) [] us)"

subsection \<open>getMaxAvailableWidth and calculateAdSlotSpace (first copy, lines 35-68, 292-308)\<close>

text \<open>
  The \<^verbatim>\<open>while\<close> loop of \<^verbatim>\<open>getMaxAvailableWidth\<close>, from \<open>current\<close> upwards with the
  minimum so far. The style and the width are read for every element visited, before the
  test that decides whether the width counts.
\<close>

fun widthWalk :: "num \<Rightarrow> element option \<Rightarrow> error + num" where
  "widthWalk maxWidth None = Inr maxWidth"
| "widthWalk maxWidth (Some (Element r st body parent)) =
     (if body then Inr maxWidth
      else (case st of
              None \<Rightarrow> Inl HostError
            | Some s \<Rightarrow>
                (case r of
                   None \<Rightarrow> Inl HostError
                 | Some b \<Rightarrow>
                     widthWalk
                       (if display s \<noteq> ''contents'' \<and> position s \<noteq> ''absolute''
                        then Math_min maxWidth (Finite (rect_width b)) else maxWidth)
                       parent)))"

definition getMaxAvailableWidth :: "element \<Rightarrow> error + num" where
  "getMaxAvailableWidth el = widthWalk Infinity (Some el)"

definition availableSpace_1 :: "rect \<Rightarrow> viewportSize \<Rightarrow> num \<Rightarrow> obj" where
  "availableSpace_1 r vs maxAvailableWidth =
    [(''width'', rnd (rect_width r)),
     (''height'', rnd (rect_height r)),
     (''viewportWidth'', rnd (vp_width vs)),
     (''viewportHeight'', rnd (vp_height vs)),
     (''maxAvailableWidth'', JNum (Math_round maxAvailableWidth))]"

definition calculateAdSlotSpace_1 :: "viewportSize \<Rightarrow> element option \<Rightarrow> obj option" where
  "calculateAdSlotSpace_1 vs element =
     (case element of
        None \<Rightarrow> None
      | Some el \<Rightarrow>
          (case getBoundingClientRect el of
             Inl e \<Rightarrow> None
           | Inr r \<Rightarrow>
               (case getMaxAvailableWidth el of
                  Inl e \<Rightarrow> None
                | Inr w \<Rightarrow> Some (availableSpace_1 r vs w))))"

definition collectResponsiveStretchData_1 ::
  "viewportSize \<Rightarrow> document \<Rightarrow> adUnit list option \<Rightarrow> obj" where
  "collectResponsiveStretchData_1 vs doc adUnits =
     (case adUnits of
        None \<Rightarrow> []
      | Some us \<Rightarrow> foldl (collectStep (calculateAdSlotSpace_1 vs) doc) [] us)"

text \<open>
  The claim's reading of \<^verbatim>\<open>maxAvailableWidth\<close>, for comparison: the minimum over the
  ancestors of the element (the element itself left out), starting unbounded.
\<close>

definition ancestorsMinWidth :: "element \<Rightarrow> error + num" where
  "ancestorsMinWidth el = widthWalk Infinity (parentElement el)"

text \<open>The elements the walk visits: the element and its ancestors, below the body.\<close>

fun chain :: "element option \<Rightarrow> element list" where
  "chain None = []"
| "chain (Some (Element r st body parent)) =
     (if body then [] else Element r st body parent # chain parent)"

definition limitsWidth :: "element \<Rightarrow> bool" where
  "limitsWidth el =
     (case computedStyle el of
        None \<Rightarrow> False
      | Some s \<Rightarrow> display s \<noteq> ''contents'' \<and> position s \<noteq> ''absolute'')"

definition readable :: "element \<Rightarrow> bool" where
  "readable el = (computedStyle el \<noteq> None \<and> boundingClientRect el \<noteq> None)"

subsection \<open>The helpers of utils.js\<close>

text \<open>
  Modelled from the spec: the list case of the deep merge of \<^verbatim>\<open>src/utils.js\<close>, which
  is not among the files. A list merged into a list gains, in order, the entries it does
  not hold yet, so that a repeated merge does not duplicate entries.
\<close>

fun pushNew :: "jv list \<Rightarrow> jv list \<Rightarrow> jv list" where
  "pushNew ys [] = ys"
| "pushNew ys (x # xs) = pushNew (if x \<in> set ys then ys else ys @ [x]) xs"

text \<open>
  Modelled from the spec: \<^verbatim>\<open>mergeDeep\<close> of \<^verbatim>\<open>src/utils.js\<close> is imported by the
  module and is not among the files. The spec's deep merge, key by key of the source:
  nested key/value structures are united recursively; where both sides define a leaf the
  new value wins; lists are merged as above. Where the new value is a structure and the
  old one is missing or is not one, the structure is merged into a fresh one.
\<close>

fun mergeDeep :: "obj \<Rightarrow> obj \<Rightarrow> obj"
  and mergeValue :: "jv option \<Rightarrow> jv \<Rightarrow> jv" where
  "mergeDeep target [] = target"
| "mergeDeep target ((k, v) # source) =
     mergeDeep (AList.update k (mergeValue (map_of target k) v) target) source"
| "mergeValue old (JObj vs) =
     JObj (mergeDeep (case old of Some (JObj os) \<Rightarrow> os | _ \<Rightarrow> []) vs)"
| "mergeValue old (JArr xs) =
     (case old of Some (JArr ys) \<Rightarrow> JArr (pushNew ys xs) | _ \<Rightarrow> JArr xs)"
| "mergeValue old v = v"

text \<open>
  A configuration parameter as the page may have set it: the module validates nothing,
  so any value can arrive. An array holds bidder names.
\<close>

datatype param =
    PUndefined
  | PNull
  | PBool bool
  | PNum num
  | PStr string
  | PArr "string list"
  | PObj obj

text \<open>
  Modelled from the spec: \<^verbatim>\<open>isEmpty\<close> of \<^verbatim>\<open>src/utils.js\<close> is not among the files.
  The spec speaks of an empty and a non-empty bidder collection and of a cycle in which no
  slot could be measured: a collection (an array, an object, a string) is empty when it
  holds no entry.
\<close>

definition isEmpty :: "'a list \<Rightarrow> bool" where
  "isEmpty xs = (xs = [])"

text \<open>
  Modelled from the spec: \<^verbatim>\<open>isArray\<close> of \<^verbatim>\<open>src/utils.js\<close> is not among the files.
  It tells whether the configured bidders value is an array.
\<close>

definition isArray :: "param \<Rightarrow> bool" where
  "isArray p = (case p of PArr bs \<Rightarrow> True | _ \<Rightarrow> False)"

text \<open>
  Modelled from the spec: \<^verbatim>\<open>isEmpty\<close> on a configuration parameter. A value that is no
  collection holds no entry.
\<close>

definition isEmptyParam :: "param \<Rightarrow> bool" where
  "isEmptyParam p =
     (case p of PArr bs \<Rightarrow> isEmpty bs | PStr s \<Rightarrow> isEmpty s | PObj kvs \<Rightarrow> isEmpty kvs
      | _ \<Rightarrow> True)"

text \<open>JavaScript truthiness, of a parameter and of a value.\<close>

definition truthyNum :: "num \<Rightarrow> bool" where
  "truthyNum n = (n \<noteq> Finite 0 \<and> n \<noteq> NaN)"

definition truthyParam :: "param \<Rightarrow> bool" where
  "truthyParam p =
     (case p of PUndefined \<Rightarrow> False | PNull \<Rightarrow> False | PBool b \<Rightarrow> b
      | PNum n \<Rightarrow> truthyNum n | PStr s \<Rightarrow> s \<noteq> [] | PArr bs \<Rightarrow> True | PObj kvs \<Rightarrow> True)"

definition truthy :: "jv \<Rightarrow> bool" where
  "truthy v =
     (case v of JNull \<Rightarrow> False | JBool b \<Rightarrow> b | JNum n \<Rightarrow> truthyNum n
      | JStr s \<Rightarrow> s \<noteq> [] | JArr xs \<Rightarrow> True | JObj kvs \<Rightarrow> True)"

subsection \<open>addStretchDataToORTB2\<close>

record params =
  bidders :: param
  global :: param
  impLevel :: param

text \<open>\<^verbatim>\<open>moduleConfig\<close>; \<open>None\<close> is a configuration without \<^verbatim>\<open>params\<close>.\<close>

record moduleConfig =
  params :: "params option"

record ortb2Fragments =
  frag_global :: obj
  frag_bidder :: obj

text \<open>
  \<^verbatim>\<open>reqBidsConfigObj\<close>: the fragments (\<open>None\<close> when the key is missing, so that reading
  \<^verbatim>\<open>.global\<close> or \<^verbatim>\<open>.bidder\<close> raises), the ad units (\<open>None\<close> when missing) and its
  other keys.
\<close>

record reqBidsConfigObj =
  ortb2Fragments :: "ortb2Fragments option"
  adUnits :: "adUnit list option"
  req_other :: obj

text \<open>What the merge reads from outside: \<^verbatim>\<open>getViewportSize()\<close> and \<^verbatim>\<open>Date.now()\<close>.\<close>

record clock =
  viewport :: viewportSize
  now :: int

definition biddersOf :: "moduleConfig \<Rightarrow> param" where
  "biddersOf moduleConfig =
     (case params moduleConfig of
        None \<Rightarrow> PArr []
      | Some p \<Rightarrow> if truthyParam (bidders p) then bidders p else PArr [])"

definition globalEnabled :: "moduleConfig \<Rightarrow> bool" where
  "globalEnabled moduleConfig =
     (case params moduleConfig of None \<Rightarrow> True | Some p \<Rightarrow> global p \<noteq> PBool False)"

definition impLevelEnabled :: "moduleConfig \<Rightarrow> bool" where
  "impLevelEnabled moduleConfig =
     (case params moduleConfig of None \<Rightarrow> True | Some p \<Rightarrow> impLevel p \<noteq> PBool False)"

text \<open>The payload literals; \<open>rs\<close> is the object under \<^verbatim>\<open>responsiveStretch\<close>.\<close>

definition siteData :: "obj \<Rightarrow> obj" where
  "siteData rs =
     [(''site'', JObj [(''ext'', JObj [(''data'', JObj [(''responsiveStretch'', JObj rs)])])])]"

definition stretchPayload :: "clock \<Rightarrow> obj \<Rightarrow> obj" where
  "stretchPayload c stretchData =
     siteData
       [(''viewport'', JObj [(''width'', JNum (Finite (vp_width (viewport c)))),
                            (''height'', JNum (Finite (vp_height (viewport c))))]),
        (''adUnits'', JObj stretchData),
        (''timestamp'', JNum (Finite (of_int (now c))))]"

definition stretchPayload_1 :: "clock \<Rightarrow> obj \<Rightarrow> obj" where
  "stretchPayload_1 c stretchData =
     siteData
       [(''adUnits'', JObj stretchData),
        (''timestamp'', JNum (Finite (of_int (now c))))]"

text \<open>\<^verbatim>\<open>Object.fromEntries(bidders.map(bidder => [bidder, bidderData]))\<close>.\<close>

definition bidderConfig :: "string list \<Rightarrow> obj \<Rightarrow> obj" where
  "bidderConfig bs bidderData = foldl (\<lambda>acc b. AList.update b (JObj bidderData) acc) [] bs"

text \<open>The first \<^verbatim>\<open>if\<close>: the global fragment.\<close>

definition addGlobal ::
  "obj \<Rightarrow> moduleConfig \<Rightarrow> reqBidsConfigObj \<Rightarrow> error + reqBidsConfigObj" where
  "addGlobal globalData moduleConfig req =
     (if globalEnabled moduleConfig \<and>
         (isEmptyParam (biddersOf moduleConfig) \<or> \<not> isArray (biddersOf moduleConfig))
      then (case ortb2Fragments req of
              None \<Rightarrow> Inl TypeError
            | Some f \<Rightarrow>
                Inr (req\<lparr>ortb2Fragments :=
                       Some (f\<lparr>frag_global := mergeDeep (frag_global f) globalData\<rparr>)\<rparr>))
      else Inr req)"

text \<open>The second \<^verbatim>\<open>if\<close>: the bidder fragment.\<close>

definition addBidders ::
  "obj \<Rightarrow> moduleConfig \<Rightarrow> reqBidsConfigObj \<Rightarrow> error + reqBidsConfigObj" where
  "addBidders bidderData moduleConfig req =
     (case biddersOf moduleConfig of
        PArr bs \<Rightarrow>
          (if length bs > 0
           then (case ortb2Fragments req of
                   None \<Rightarrow> Inl TypeError
                 | Some f \<Rightarrow>
                     Inr (req\<lparr>ortb2Fragments :=
                            Some (f\<lparr>frag_bidder :=
                                     mergeDeep (frag_bidder f) (bidderConfig bs bidderData)\<rparr>)\<rparr>))
           else Inr req)
      | _ \<Rightarrow> Inr req)"

text \<open>
  The body of the \<^verbatim>\<open>forEach\<close> over the ad units, second copy: \<open>impData\<close> holds the
  slot's record under \<^verbatim>\<open>ext.data.responsiveStretch\<close>.
\<close>

definition impData :: "jv \<Rightarrow> obj" where
  "impData stretchInfo =
     [(''ext'', JObj [(''data'', JObj [(''responsiveStretch'', stretchInfo)])])]"

definition orEmpty :: "obj option \<Rightarrow> obj" where
  "orEmpty ob = (case ob of None \<Rightarrow> [] | Some kvs \<Rightarrow> kvs)"

definition addImp :: "obj \<Rightarrow> adUnit \<Rightarrow> adUnit" where
  "addImp stretchData u =
     (case map_of stretchData (code u) of
        None \<Rightarrow> u
      | Some stretchInfo \<Rightarrow>
          if truthy stretchInfo
          then u\<lparr>ortb2Imp := Some (mergeDeep (orEmpty (ortb2Imp u)) (impData stretchInfo))\<rparr>
          else u)"

text \<open>
  First copy: \<^verbatim>\<open>banner.wmax\<close> is added to \<open>impData\<close> when the record has a
  \<^verbatim>\<open>maxAvailableWidth\<close> that is truthy and not \<^verbatim>\<open>Infinity\<close>.
\<close>

definition property :: "jv \<Rightarrow> string \<Rightarrow> jv option" where
  "property v k = (case v of JObj kvs \<Rightarrow> map_of kvs k | _ \<Rightarrow> None)"

definition impData_1 :: "jv \<Rightarrow> obj" where
  "impData_1 stretchInfo =
     (case property stretchInfo ''maxAvailableWidth'' of
        None \<Rightarrow> impData stretchInfo
      | Some w \<Rightarrow>
          if truthy w \<and> w \<noteq> JNum Infinity
          then impData stretchInfo @ [(''banner'', JObj [(''wmax'', w)])]
          else impData stretchInfo)"

definition addImp_1 :: "obj \<Rightarrow> adUnit \<Rightarrow> adUnit" where
  "addImp_1 stretchData u =
     (case map_of stretchData (code u) of
        None \<Rightarrow> u
      | Some stretchInfo \<Rightarrow>
          if truthy stretchInfo
          then u\<lparr>ortb2Imp := Some (mergeDeep (orEmpty (ortb2Imp u)) (impData_1 stretchInfo))\<rparr>
          else u)"

text \<open>The third \<^verbatim>\<open>if\<close>: the impression level, for a given loop body.\<close>

definition addImpLevel ::
  "(adUnit \<Rightarrow> adUnit) \<Rightarrow> moduleConfig \<Rightarrow> reqBidsConfigObj \<Rightarrow> reqBidsConfigObj" where
  "addImpLevel body moduleConfig req =
     (if impLevelEnabled moduleConfig
      then (case adUnits req of
              None \<Rightarrow> req
            | Some us \<Rightarrow> req\<lparr>adUnits := Some (map body us)\<rparr>)
      else req)"

text \<open>
  \<^verbatim>\<open>addStretchDataToORTB2\<close>, second copy (lines 513-583) and first copy (lines 136-211).
  The object is mutated in place in the source; the model returns it. An error can only be
  raised by the first merge that runs, before anything is written.
\<close>

definition addStretchDataToORTB2 ::
  "clock \<Rightarrow> reqBidsConfigObj \<Rightarrow> obj \<Rightarrow> moduleConfig \<Rightarrow> error + reqBidsConfigObj" where
  "addStretchDataToORTB2 c req stretchData moduleConfig =
     (case addGlobal (stretchPayload c stretchData) moduleConfig req of
        Inl e \<Rightarrow> Inl e
      | Inr req1 \<Rightarrow>
          (case addBidders (stretchPayload c stretchData) moduleConfig req1 of
             Inl e \<Rightarrow> Inl e
           | Inr req2 \<Rightarrow> Inr (addImpLevel (addImp stretchData) moduleConfig req2)))"

definition addStretchDataToORTB2_1 ::
  "clock \<Rightarrow> reqBidsConfigObj \<Rightarrow> obj \<Rightarrow> moduleConfig \<Rightarrow> error + reqBidsConfigObj" where
  "addStretchDataToORTB2_1 c req stretchData moduleConfig =
     (case addGlobal (stretchPayload_1 c stretchData) moduleConfig req of
        Inl e \<Rightarrow> Inl e
      | Inr req1 \<Rightarrow>
          (case addBidders (stretchPayload_1 c stretchData) moduleConfig req1 of
             Inl e \<Rightarrow> Inl e
           | Inr req2 \<Rightarrow> Inr (addImpLevel (addImp_1 stretchData) moduleConfig req2)))"

subsection \<open>getBidRequestData\<close>

text \<open>
  The state a cycle acts on: the request object the caller passed (\<open>None\<close> when the
  argument is \<^verbatim>\<open>null\<close> or \<^verbatim>\<open>undefined\<close>), the number of times the completion callback
  has been invoked, and the functions handed to \<^verbatim>\<open>setTimeout\<close> that have not run yet.
  A pending function is the closure of the second copy; it closes over \<open>adUnits\<close>.
\<close>

datatype task = Deferred "adUnit list"

record world =
  req :: "reqBidsConfigObj option"
  calls :: nat
  timers :: "task list"

text \<open>
  A procedure returns the state it leaves and, when it raises, the error. The callback is
  the caller's: \<open>cb n\<close> tells whether its invocation after \<open>n\<close> earlier ones raises.
\<close>

type_synonym callback = "nat \<Rightarrow> bool"

definition invoke :: "callback \<Rightarrow> world \<Rightarrow> error option \<times> world" where
  "invoke cb w =
     ((if cb (calls w) then Some CallbackError else None), w\<lparr>calls := Suc (calls w)\<rparr>)"

text \<open>
  A \<^verbatim>\<open>callback()\<close> that stands inside the outer \<^verbatim>\<open>try\<close>: when it raises, the
  \<^verbatim>\<open>catch\<close> block runs, and that block invokes the callback.
\<close>

definition invokeInTry :: "callback \<Rightarrow> world \<Rightarrow> error option \<times> world" where
  "invokeInTry cb w =
     (case invoke cb w of
        (None, w1) \<Rightarrow> (None, w1)
      | (Some e, w1) \<Rightarrow> invoke cb w1)"

text \<open>\<^verbatim>\<open>reqBidsConfigObj.adUnits || getGlobal().adUnits || []\<close>; an array is truthy.\<close>

definition adUnitsOf :: "adUnit list option \<Rightarrow> reqBidsConfigObj \<Rightarrow> adUnit list" where
  "adUnitsOf globalAdUnits r =
     (case adUnits r of
        Some us \<Rightarrow> us
      | None \<Rightarrow> (case globalAdUnits of Some us \<Rightarrow> us | None \<Rightarrow> []))"

text \<open>
  The inner \<^verbatim>\<open>try\<close>/\<^verbatim>\<open>catch\<close>, for any behaviour of the two steps it calls: an error
  of either is caught and logged. Merging into a request object that is \<^verbatim>\<open>null\<close> raises.
\<close>

definition processStretchData ::
  "(adUnit list \<Rightarrow> error + obj) \<Rightarrow> (reqBidsConfigObj \<Rightarrow> obj \<Rightarrow> error + reqBidsConfigObj) \<Rightarrow>
   adUnit list \<Rightarrow> reqBidsConfigObj option \<Rightarrow> reqBidsConfigObj option" where
  "processStretchData collectF addF us ro =
     (case collectF us of
        Inl e \<Rightarrow> ro
      | Inr stretchData \<Rightarrow>
          if \<not> isEmpty stretchData
          then (case ro of
                  None \<Rightarrow> None
                | Some r \<Rightarrow> (case addF r stretchData of Inl e \<Rightarrow> Some r | Inr r' \<Rightarrow> Some r'))
          else ro)"

text \<open>First copy (lines 255-285): everything runs inside the outer \<^verbatim>\<open>try\<close>.\<close>

definition getBidRequestData_1 ::
  "(adUnit list \<Rightarrow> error + obj) \<Rightarrow> (reqBidsConfigObj \<Rightarrow> obj \<Rightarrow> error + reqBidsConfigObj) \<Rightarrow>
   adUnit list option \<Rightarrow> callback \<Rightarrow> world \<Rightarrow> error option \<times> world" where
  "getBidRequestData_1 collectF addF globalAdUnits cb w =
     (case req w of
        None \<Rightarrow> invoke cb w
      | Some r \<Rightarrow>
          if isEmpty (adUnitsOf globalAdUnits r) then invokeInTry cb w
          else invokeInTry cb
                 (w\<lparr>req := processStretchData collectF addF (adUnitsOf globalAdUnits r) (req w)\<rparr>))"

text \<open>
  Second copy (lines 623-656): the work is handed to \<^verbatim>\<open>setTimeout\<close>; the call returns
  with the closure pending.
\<close>

definition getBidRequestData ::
  "adUnit list option \<Rightarrow> callback \<Rightarrow> world \<Rightarrow> error option \<times> world" where
  "getBidRequestData globalAdUnits cb w =
     (case req w of
        None \<Rightarrow> invoke cb w
      | Some r \<Rightarrow>
          if isEmpty (adUnitsOf globalAdUnits r) then invokeInTry cb w
          else (None, w\<lparr>timers := timers w @ [Deferred (adUnitsOf globalAdUnits r)]\<rparr>))"

text \<open>The closure, run by the timer: outside the outer \<^verbatim>\<open>try\<close>.\<close>

definition runTask ::
  "(adUnit list \<Rightarrow> error + obj) \<Rightarrow> (reqBidsConfigObj \<Rightarrow> obj \<Rightarrow> error + reqBidsConfigObj) \<Rightarrow>
   callback \<Rightarrow> task \<Rightarrow> world \<Rightarrow> error option \<times> world" where
  "runTask collectF addF cb t w =
     (case t of
        Deferred us \<Rightarrow> invoke cb (w\<lparr>req := processStretchData collectF addF us (req w)\<rparr>))"

text \<open>
  The timer tick: every pending closure runs, in order; an error of one is reported by
  the host and does not stop the next.
\<close>

fun runAll ::
  "(adUnit list \<Rightarrow> error + obj) \<Rightarrow> (reqBidsConfigObj \<Rightarrow> obj \<Rightarrow> error + reqBidsConfigObj) \<Rightarrow>
   callback \<Rightarrow> task list \<Rightarrow> world \<Rightarrow> world" where
  "runAll collectF addF cb [] w = w"
| "runAll collectF addF cb (t # ts) w = runAll collectF addF cb ts (snd (runTask collectF addF cb t w))"

definition timerTick ::
  "(adUnit list \<Rightarrow> error + obj) \<Rightarrow> (reqBidsConfigObj \<Rightarrow> obj \<Rightarrow> error + reqBidsConfigObj) \<Rightarrow>
   callback \<Rightarrow> world \<Rightarrow> world" where
  "timerTick collectF addF cb w = runAll collectF addF cb (timers w) (w\<lparr>timers := []\<rparr>)"

text \<open>The two steps as the module calls them; \<^verbatim>\<open>moduleConfig || _moduleConfig\<close>.\<close>

definition collectCall :: "viewportSize \<Rightarrow> document \<Rightarrow> adUnit list \<Rightarrow> error + obj" where
  "collectCall vs doc us = Inr (collectResponsiveStretchData vs doc (Some us))"

definition collectCall_1 :: "viewportSize \<Rightarrow> document \<Rightarrow> adUnit list \<Rightarrow> error + obj" where
  "collectCall_1 vs doc us = Inr (collectResponsiveStretchData_1 vs doc (Some us))"

definition configOr :: "moduleConfig option \<Rightarrow> moduleConfig \<Rightarrow> moduleConfig" where
  "configOr moduleConfig saved = (case moduleConfig of None \<Rightarrow> saved | Some m \<Rightarrow> m)"

definition addCall ::
  "clock \<Rightarrow> moduleConfig option \<Rightarrow> moduleConfig \<Rightarrow> reqBidsConfigObj \<Rightarrow> obj \<Rightarrow>
   error + reqBidsConfigObj" where
  "addCall c moduleConfig saved r stretchData =
     addStretchDataToORTB2 c r stretchData (configOr moduleConfig saved)"

definition addCall_1 ::
  "clock \<Rightarrow> moduleConfig option \<Rightarrow> moduleConfig \<Rightarrow> reqBidsConfigObj \<Rightarrow> obj \<Rightarrow>
   error + reqBidsConfigObj" where
  "addCall_1 c moduleConfig saved r stretchData =
     addStretchDataToORTB2_1 c r stretchData (configOr moduleConfig saved)"

subsection \<open>Notions the statements use\<close>

text \<open>An element whose layout the measurement can read: its own and its parent's.\<close>

definition measurable :: "element \<Rightarrow> bool" where
  "measurable el =
     (boundingClientRect el \<noteq> None \<and>
      (case parentElement el of None \<Rightarrow> True | Some p \<Rightarrow> boundingClientRect p \<noteq> None))"

text \<open>The slot of the module's own test: a 300 by 250 box inside a 1200 by 800 parent.\<close>

definition testBox :: rect where
  "testBox = \<lparr>rect_width = 300, rect_height = 250, rect_top = 100, rect_left = 50,
              rect_right = 350, rect_bottom = 350\<rparr>"

definition testViewport :: viewportSize where
  "testViewport = \<lparr>vp_width = 1920, vp_height = 1080\<rparr>"

definition plain :: style where
  "plain = \<lparr>display = ''block'', position = ''static''\<rparr>"

definition testParent :: element where
  "testParent =
     Element (Some \<lparr>rect_width = 1200, rect_height = 800, rect_top = 0, rect_left = 0,
                     rect_right = 1200, rect_bottom = 800\<rparr>) (Some plain) False None"

definition testElement :: element where
  "testElement = Element (Some testBox) (Some plain) False (Some testParent)"

text \<open>
  A rectangle as the layout engine reports it: its width and height are not negative, and
  its right and bottom edges are the doubles \<^verbatim>\<open>left + width\<close> and \<^verbatim>\<open>top + height\<close>
  (sub-pixel positions included).
\<close>

definition layoutBox :: "rect \<Rightarrow> bool" where
  "layoutBox r =
     (0 \<le> rect_width r \<and> 0 \<le> rect_height r
      \<and> fl (rect_left r + rect_width r) = Finite (rect_right r)
      \<and> fl (rect_top r + rect_height r) = Finite (rect_bottom r))"

text \<open>A slot at a sub-pixel position: 300.25 wide, from 50.5 to 350.75.\<close>

definition subPixelBox :: rect where
  "subPixelBox = \<lparr>rect_width = 1201 / 4, rect_height = 250, rect_top = 100,
                   rect_left = 101 / 2, rect_right = 1403 / 4, rect_bottom = 350\<rparr>"

definition subPixelElement :: element where
  "subPixelElement = Element (Some subPixelBox) (Some plain) False None"

text \<open>A viewport that is zero pixels wide, and one that is zero pixels wide and high.\<close>

definition zeroWidthViewport :: viewportSize where
  "zeroWidthViewport = \<lparr>vp_width = 0, vp_height = 1080\<rparr>"

definition zeroViewport :: viewportSize where
  "zeroViewport = \<lparr>vp_width = 0, vp_height = 0\<rparr>"

text \<open>
  A slot whose layout cannot be read, an ad unit with a given code, and a page where
  \<^verbatim>\<open>ad-1\<close> is that slot and \<^verbatim>\<open>ad-2\<close> is the test slot.
\<close>

definition brokenElement :: element where
  "brokenElement = Element None (Some plain) False None"

definition unit :: "string \<Rightarrow> adUnit" where
  "unit c = \<lparr>code = c, ortb2Imp = None, adUnit_other = []\<rparr>"

definition testDocument :: document where
  "testDocument =
     \<lparr>getElementById =
        (\<lambda>c. if c = ''ad-1'' then Inr (Some brokenElement)
             else if c = ''ad-2'' then Inr (Some testElement) else Inr None),
      querySelector = (\<lambda>s. Inl HostError)\<rparr>"

text \<open>The widths of the elements whose layout can be read.\<close>

fun widths :: "element list \<Rightarrow> rat list" where
  "widths [] = []"
| "widths (el # els) =
     (case boundingClientRect el of None \<Rightarrow> widths els | Some b \<Rightarrow> rect_width b # widths els)"

text \<open>The least of a list of widths; unbounded when there is none.\<close>

definition least :: "rat list \<Rightarrow> num" where
  "least ws = (case ws of [] \<Rightarrow> Infinity | w # rest \<Rightarrow> Finite (Min (set (w # rest))))"

text \<open>
  A three-level chain: the test slot inside an absolutely positioned layer 100 wide,
  inside the test parent.
\<close>

definition absoluteLayer :: element where
  "absoluteLayer =
     Element (Some \<lparr>rect_width = 100, rect_height = 800, rect_top = 0, rect_left = 0,
                     rect_right = 100, rect_bottom = 800\<rparr>)
             (Some \<lparr>display = ''block'', position = ''absolute''\<rparr>) False (Some testParent)"

definition threeLevel :: element where
  "threeLevel = Element (Some testBox) (Some plain) False (Some absoluteLayer)"

text \<open>
  A well-formed object has each key once, at every depth; JavaScript objects are so by
  construction.
\<close>

fun wf_obj :: "obj \<Rightarrow> bool"
  and wf_jv :: "jv \<Rightarrow> bool" where
  "wf_obj [] = True"
| "wf_obj ((k, v) # kvs) = (k \<notin> fst ` set kvs \<and> wf_jv v \<and> wf_obj kvs)"
| "wf_jv (JObj kvs) = wf_obj kvs"
| "wf_jv v = True"

text \<open>Reading a value by its path of keys, and the value that holds \<open>v\<close> at a path.\<close>

fun getPath :: "string list \<Rightarrow> jv \<Rightarrow> jv option" where
  "getPath [] v = Some v"
| "getPath (k # ks) (JObj kvs) = (case map_of kvs k of None \<Rightarrow> None | Some v \<Rightarrow> getPath ks v)"
| "getPath (k # ks) v = None"

fun nest :: "string list \<Rightarrow> jv \<Rightarrow> jv" where
  "nest [] v = v"
| "nest (k # ks) v = JObj [(k, nest ks v)]"

text \<open>Two paths are apart when neither leads to the other.\<close>

definition apart :: "string list \<Rightarrow> string list \<Rightarrow> bool" where
  "apart p q = (\<not> prefix p q \<and> \<not> prefix q p)"

text \<open>The paths the module writes to.\<close>

definition scope :: "string list" where
  "scope = [''site'', ''ext'', ''data'', ''responsiveStretch'']"

definition impScope :: "string list" where
  "impScope = [''ext'', ''data'', ''responsiveStretch'']"

definition wmaxScope :: "string list" where
  "wmaxScope = [''banner'', ''wmax'']"

text \<open>Two objects agree at every path that is apart from each path of a set.\<close>

definition sameOutside :: "string list set \<Rightarrow> obj \<Rightarrow> obj \<Rightarrow> bool" where
  "sameOutside S t t' =
     (\<forall>p. (\<forall>q \<in> S. apart p q) \<longrightarrow> getPath p (JObj t') = getPath p (JObj t))"

text \<open>The bidders the configuration names.\<close>

definition namedBidders :: "moduleConfig \<Rightarrow> string set" where
  "namedBidders moduleConfig = (case biddersOf moduleConfig of PArr bs \<Rightarrow> set bs | _ \<Rightarrow> {})"

text \<open>
  What the first two branches of \<^verbatim>\<open>addStretchDataToORTB2\<close> leave in the global and in
  the bidder fragment, for a payload \<open>P\<close>; and whether either branch runs.
\<close>

definition globalRuns :: "moduleConfig \<Rightarrow> bool" where
  "globalRuns moduleConfig =
     (globalEnabled moduleConfig \<and> (\<forall>bs. biddersOf moduleConfig = PArr bs \<longrightarrow> bs = []))"

definition biddersRun :: "moduleConfig \<Rightarrow> bool" where
  "biddersRun moduleConfig = (\<exists>b bs. biddersOf moduleConfig = PArr (b # bs))"

definition mergedGlobal :: "obj \<Rightarrow> moduleConfig \<Rightarrow> obj \<Rightarrow> obj" where
  "mergedGlobal P moduleConfig g = (if globalRuns moduleConfig then mergeDeep g P else g)"

definition mergedBidder :: "obj \<Rightarrow> moduleConfig \<Rightarrow> obj \<Rightarrow> obj" where
  "mergedBidder P moduleConfig b =
     (case biddersOf moduleConfig of
        PArr bs \<Rightarrow> if bs = [] then b else mergeDeep b (bidderConfig bs P)
      | _ \<Rightarrow> b)"

definition mergedUnits :: "(adUnit \<Rightarrow> adUnit) \<Rightarrow> moduleConfig \<Rightarrow> adUnit list option \<Rightarrow> adUnit list option" where
  "mergedUnits body moduleConfig us =
     (if impLevelEnabled moduleConfig then map_option (map body) us else us)"

text \<open>The request object after a call that did not raise, for a payload and a loop body.\<close>

definition written ::
  "obj \<Rightarrow> (adUnit \<Rightarrow> adUnit) \<Rightarrow> moduleConfig \<Rightarrow> reqBidsConfigObj \<Rightarrow> reqBidsConfigObj" where
  "written P body moduleConfig r =
     r\<lparr>ortb2Fragments :=
          map_option (\<lambda>f. \<lparr>frag_global = mergedGlobal P moduleConfig (frag_global f),
                            frag_bidder = mergedBidder P moduleConfig (frag_bidder f)\<rparr>)
            (ortb2Fragments r),
       adUnits := mergedUnits body moduleConfig (adUnits r)\<rparr>"

text \<open>
  The two fragment writes exclude each other: the global fragment is merged into when
  the global flag is not \<^verbatim>\<open>false\<close> and \<open>bidders\<close> is an empty array or no array; the
  bidder fragment when \<open>bidders\<close> is a non-empty array; and then the other is left as it was.
\<close>

definition exclusiveWrite :: "obj \<Rightarrow> moduleConfig \<Rightarrow> ortb2Fragments \<Rightarrow> ortb2Fragments \<Rightarrow> bool" where
  "exclusiveWrite P moduleConfig f f' =
     (frag_global f' =
        (if globalEnabled moduleConfig \<and>
            (biddersOf moduleConfig = PArr [] \<or> \<not> isArray (biddersOf moduleConfig))
         then mergeDeep (frag_global f) P else frag_global f)
      \<and> frag_bidder f' =
        (case biddersOf moduleConfig of
           PArr bs \<Rightarrow> if bs = [] then frag_bidder f
                     else mergeDeep (frag_bidder f) (bidderConfig bs P)
         | _ \<Rightarrow> frag_bidder f)
      \<and> (frag_global f' = frag_global f \<or> frag_bidder f' = frag_bidder f)
      \<and> ((\<exists>b bs. biddersOf moduleConfig = PArr (b # bs)) \<longrightarrow> frag_global f' = frag_global f)
      \<and> ((\<forall>b bs. biddersOf moduleConfig \<noteq> PArr (b # bs)) \<longrightarrow> frag_bidder f' = frag_bidder f))"

text \<open>
  The request object is unchanged outside the module's paths: its other keys, the global
  fragment apart from \<open>scope\<close>, the bidder fragment apart from \<open>scope\<close> under each named
  bidder, and of every ad unit the code, the other keys and \<^verbatim>\<open>ortb2Imp\<close> apart from the
  given paths.
\<close>

definition unchangedOutside ::
  "string list set \<Rightarrow> moduleConfig \<Rightarrow> reqBidsConfigObj \<Rightarrow> reqBidsConfigObj \<Rightarrow> bool" where
  "unchangedOutside impPaths moduleConfig r r' =
     (req_other r' = req_other r
      \<and> rel_option
          (\<lambda>f f'. sameOutside {scope} (frag_global f) (frag_global f')
                 \<and> sameOutside ((\<lambda>b. b # scope) ` namedBidders moduleConfig)
                     (frag_bidder f) (frag_bidder f'))
          (ortb2Fragments r) (ortb2Fragments r')
      \<and> rel_option
          (list_all2
             (\<lambda>u u'. code u' = code u \<and> adUnit_other u' = adUnit_other u
                    \<and> sameOutside impPaths (orEmpty (ortb2Imp u)) (orEmpty (ortb2Imp u'))))
          (adUnits r) (adUnits r'))"

text \<open>
  What the first copy puts under \<^verbatim>\<open>banner.wmax\<close> of an ad unit, if anything: the
  \<^verbatim>\<open>maxAvailableWidth\<close> of the unit's measurement, when the impression level is enabled,
  the unit has a measurement, and the value is truthy (not missing, not 0) and not
  \<^verbatim>\<open>Infinity\<close>.
\<close>

definition wmaxOf :: "moduleConfig \<Rightarrow> obj \<Rightarrow> adUnit \<Rightarrow> jv option" where
  "wmaxOf moduleConfig stretchData u =
     (if impLevelEnabled moduleConfig
      then (case map_of stretchData (code u) of
              None \<Rightarrow> None
            | Some stretchInfo \<Rightarrow>
                if truthy stretchInfo
                then (case property stretchInfo ''maxAvailableWidth'' of
                        None \<Rightarrow> None
                      | Some w \<Rightarrow> if truthy w \<and> w \<noteq> JNum Infinity then Some w else None)
                else None)
      else None)"

text \<open>
  The first copy's frame. The request is unchanged as for \<open>unchangedOutside\<close>, except in
  \<^verbatim>\<open>ortb2Imp\<close>: an ad unit for which \<open>wmaxOf\<close> gives a value is unchanged apart from
  \<^verbatim>\<open>ext.data.responsiveStretch\<close> and \<^verbatim>\<open>banner.wmax\<close>, and that value has been merged into
  \<^verbatim>\<open>banner.wmax\<close>; every other ad unit is unchanged apart from
  \<^verbatim>\<open>ext.data.responsiveStretch\<close>, \<^verbatim>\<open>banner\<close> included.
\<close>

definition unchangedOutside_1 ::
  "obj \<Rightarrow> moduleConfig \<Rightarrow> reqBidsConfigObj \<Rightarrow> reqBidsConfigObj \<Rightarrow> bool" where
  "unchangedOutside_1 stretchData moduleConfig r r' =
     (req_other r' = req_other r
      \<and> rel_option
          (\<lambda>f f'. sameOutside {scope} (frag_global f) (frag_global f')
                 \<and> sameOutside ((\<lambda>b. b # scope) ` namedBidders moduleConfig)
                     (frag_bidder f) (frag_bidder f'))
          (ortb2Fragments r) (ortb2Fragments r')
      \<and> rel_option
          (list_all2
             (\<lambda>u u'. code u' = code u \<and> adUnit_other u' = adUnit_other u
                    \<and> (case wmaxOf moduleConfig stretchData u of
                         None \<Rightarrow>
                           sameOutside {impScope} (orEmpty (ortb2Imp u)) (orEmpty (ortb2Imp u'))
                       | Some w \<Rightarrow>
                           sameOutside {impScope, wmaxScope}
                             (orEmpty (ortb2Imp u)) (orEmpty (ortb2Imp u'))
                           \<and> getPath wmaxScope (JObj (orEmpty (ortb2Imp u')))
                               = Some (mergeValue
                                         (getPath wmaxScope (JObj (orEmpty (ortb2Imp u)))) w))))
          (adUnits r) (adUnits r'))"

text \<open>
  The request of the module's test for the merge, its configuration, and the measurement
  maps: the test's own, the first copy's record of the test slot, and that record for a
  slot that no ancestor limits.
\<close>

definition testReq :: reqBidsConfigObj where
  "testReq =
     \<lparr>ortb2Fragments = Some \<lparr>frag_global = [], frag_bidder = []\<rparr>,
      adUnits = Some [\<lparr>code = ''ad-unit-1'', ortb2Imp = Some [], adUnit_other = []\<rparr>],
      req_other = []\<rparr>"

definition testConfig :: moduleConfig where
  "testConfig =
     \<lparr>params = Some \<lparr>bidders = PArr [''appnexus''], global = PBool True,
                      impLevel = PBool True\<rparr>\<rparr>"

definition testClock :: clock where
  "testClock = \<lparr>viewport = testViewport, now = 1640995200000\<rparr>"

definition testData :: obj where
  "testData = [(''ad-unit-1'', JObj [(''width'', JNum (Finite 300)), (''height'', JNum (Finite 250))])]"

definition testData_1 :: obj where
  "testData_1 = [(''ad-unit-1'', JObj (availableSpace_1 testBox testViewport (Finite 300)))]"

definition unboundedData_1 :: obj where
  "unboundedData_1 = [(''ad-unit-1'', JObj (availableSpace_1 testBox testViewport Infinity))]"

definition laterClock :: clock where
  "laterClock = \<lparr>viewport = \<lparr>vp_width = 1280, vp_height = 720\<rparr>, now = 1640995260000\<rparr>"

text \<open>
  A cycle that starts with a request holding no ad unit, a callback that raises whenever
  it is invoked, and one that always returns.
\<close>

definition emptyUnitsWorld :: world where
  "emptyUnitsWorld =
     \<lparr>req = Some \<lparr>ortb2Fragments = Some \<lparr>frag_global = [], frag_bidder = []\<rparr>,
                    adUnits = Some [], req_other = []\<rparr>,
      calls = 0, timers = []\<rparr>"

definition testWorld :: world where
  "testWorld = \<lparr>req = Some testReq, calls = 0, timers = []\<rparr>"

definition raising :: callback where
  "raising n = True"

definition returning :: callback where
  "returning n = False"

section \<open>Properties\<close>

subsection \<open>Rounding to a double\<close>

lemma pow2_less_iff: "(2::rat) powi a < 2 powi b \<longleftrightarrow> a < b"
proof
  assume l: "(2::rat) powi a < 2 powi b"
  show "a < b"
  proof (rule ccontr)
    assume "\<not> a < b"
    then have "(2::rat) powi b \<le> 2 powi a" by (intro power_int_increasing) auto
    then show False using l by simp
  qed
next
  assume "a < b"
  then show "(2::rat) powi a < 2 powi b" by (intro power_int_strict_increasing) auto
qed

lemma pow2_le_iff: "(2::rat) powi a \<le> 2 powi b \<longleftrightarrow> a \<le> b"
  using pow2_less_iff [of b a] by (auto simp: not_less [symmetric])

text \<open>The rounded integer is within a half of the number, and is the only such integer.\<close>

lemma roundEven_error: "\<bar>of_int (roundEven y) - y\<bar> \<le> 1 / 2"
proof -
  have lo: "of_int \<lfloor>y\<rfloor> \<le> y" and hi: "y < of_int \<lfloor>y\<rfloor> + 1"
    by linarith+
  show ?thesis
    unfolding roundEven_def Let_def using lo hi by (auto simp: abs_le_iff)
qed

lemma roundEven_unique: "\<bar>of_int k - y\<bar> < 1 / 2 \<Longrightarrow> roundEven y = k"
proof -
  assume a: "\<bar>of_int k - y\<bar> < 1 / 2"
  have e: "\<bar>of_int (roundEven y) - y\<bar> \<le> 1 / 2" by (rule roundEven_error)
  have "\<bar>(of_int (roundEven y) :: rat) - of_int k\<bar> < 1" using a e by linarith
  then have "\<bar>roundEven y - k\<bar> < 1"
    by (metis of_int_abs of_int_diff of_int_less_1_iff)
  then show ?thesis by linarith
qed

lemma expSearch_range: "- 1022 \<le> expSearch n a \<and> expSearch n a \<le> int n - 1022"
  by (induction n) auto

lemma expSearch_below: "expSearch n a = - 1022 \<or> 2 powi (expSearch n a) \<le> a"
  by (induction n) auto

lemma expSearch_unique:
  "2 powi e \<le> a \<Longrightarrow> a < 2 powi (e + 1) \<Longrightarrow> - 1022 \<le> e \<Longrightarrow> e \<le> int n - 1022 \<Longrightarrow>
   expSearch n a = e"
proof (induction n)
  case 0
  then show ?case by simp
next
  case (Suc n)
  show ?case
  proof (cases "2 powi (int n - 1021) \<le> a")
    case True
    then have "(2::rat) powi (int n - 1021) < 2 powi (e + 1)" using Suc.prems(2) by linarith
    then have "int n - 1021 < e + 1"
      by (simp add: pow2_less_iff)
    then show ?thesis using True Suc.prems(4) by simp
  next
    case False
    then have "(2::rat) powi e < 2 powi (int n - 1021)" using Suc.prems(1) by linarith
    then have "e < int n - 1021" by (simp add: pow2_less_iff)
    then show ?thesis using False Suc by simp
  qed
qed

lemma expo_cases: "- 1022 \<le> expo a \<and> expo a \<le> 1023 \<and> (expo a = - 1022 \<or> 2 powi (expo a) \<le> a)"
  unfolding expo_def using expSearch_range [of 2045 a] expSearch_below [of 2045 a] by simp

lemma expo_unique:
  "2 powi e \<le> a \<Longrightarrow> a < 2 powi (e + 1) \<Longrightarrow> - 1022 \<le> e \<Longrightarrow> e \<le> 1023 \<Longrightarrow> expo a = e"
  unfolding expo_def by (rule expSearch_unique) simp_all

lemma round_to_unit:
  assumes "0 < (u::rat)"
  shows "\<bar>of_int (roundEven (x / u)) * u - x\<bar> \<le> u / 2"
proof -
  have "of_int (roundEven (x / u)) * u - x = (of_int (roundEven (x / u)) - x / u) * u"
    using assms by (simp add: field_simps)
  then have "\<bar>of_int (roundEven (x / u)) * u - x\<bar> = \<bar>of_int (roundEven (x / u)) - x / u\<bar> * u"
    using assms by (simp add: abs_mult)
  also have "\<dots> \<le> (1 / 2) * u"
    using roundEven_error [of "x / u"] assms by (intro mult_right_mono) auto
  finally show ?thesis by simp
qed

lemma small_below_threshold: "(2::rat) powi 41 \<le> overflowThreshold"
  unfolding overflowThreshold_def by (rule pow2_le_iff [THEN iffD2]) simp

text \<open>
  The rounding error: at most \<open>1 / 8192\<close> for a magnitude up to \<open>2 powi 40\<close>, and in general
  at most the magnitude times \<open>2 powi - 53\<close>, or half the subnormal spacing.
\<close>

lemma fl_small:
  assumes "\<bar>x\<bar> \<le> 2 powi 40"
  shows "\<exists>r. fl x = Finite r \<and> \<bar>r - x\<bar> \<le> 1 / 8192"
proof -
  define e where "e = expo \<bar>x\<bar>"
  define u :: rat where "u = 2 powi (e - 52)"
  define r where "r = of_int (roundEven (x / u)) * u"
  have e40: "e \<le> 40"
  proof (cases "e = - 1022")
    case True
    then show ?thesis by simp
  next
    case False
    then have "(2::rat) powi e \<le> \<bar>x\<bar>"
      using expo_cases [of "\<bar>x\<bar>"] unfolding e_def by blast
    then have "(2::rat) powi e \<le> 2 powi 40" using assms by (rule order_trans)
    then show ?thesis by (rule pow2_le_iff [THEN iffD1])
  qed
  have u0: "0 < u" by (simp add: u_def)
  have "e - 52 \<le> - 12" using e40 by simp
  then have "u \<le> 2 powi (- 12)" unfolding u_def by (rule pow2_le_iff [THEN iffD2])
  then have u12: "u \<le> 1 / 4096" by simp
  have err: "\<bar>r - x\<bar> \<le> u / 2" unfolding r_def by (rule round_to_unit [OF u0])
  have small: "\<bar>r - x\<bar> \<le> 1 / 8192" using err u12 by linarith
  have x40: "\<bar>x\<bar> \<le> 2 ^ 40" using assms by simp
  have "\<bar>r\<bar> \<le> 2 ^ 40 + 1" using small x40 by linarith
  also have "\<dots> < (2::rat) powi 41" by simp
  also have "\<dots> \<le> overflowThreshold" by (rule small_below_threshold)
  finally have "\<not> overflowThreshold \<le> \<bar>r\<bar>" by simp
  then have "fl x = Finite r"
    unfolding fl_def Let_def r_def u_def e_def by simp
  then show ?thesis using small by blast
qed

lemma fl_rel:
  assumes "fl x = Finite r"
  shows "\<bar>r - x\<bar> \<le> \<bar>x\<bar> / 2 ^ 53 + 2 powi (- 1075)"
proof -
  define e where "e = expo \<bar>x\<bar>"
  define u :: rat where "u = 2 powi (e - 52)"
  have r: "r = of_int (roundEven (x / u)) * u"
    using assms unfolding fl_def Let_def u_def e_def by (auto split: if_splits)
  have u0: "0 < u" by (simp add: u_def)
  have err: "\<bar>r - x\<bar> \<le> u / 2" unfolding r by (rule round_to_unit [OF u0])
  have half: "u / 2 = 2 powi e * 2 powi (- 53)"
    unfolding u_def using power_int_add [of "2::rat" e "- 53"] power_int_add [of "2::rat" "e - 52" "-1"]
    by simp
  consider "e = - 1022" | "(2::rat) powi e \<le> \<bar>x\<bar>"
    using expo_cases [of "\<bar>x\<bar>"] unfolding e_def by auto
  then show ?thesis
  proof cases
    case 1
    have "u / 2 = 2 powi (- 1075)"
      unfolding half 1 using power_int_add [of "2::rat" "- 1022" "- 53"] by simp
    moreover have "0 \<le> \<bar>x\<bar> / 2 ^ 53" by simp
    ultimately show ?thesis using err by linarith
  next
    case 2
    have "u / 2 \<le> \<bar>x\<bar> * 2 powi (- 53)"
      unfolding half using 2 by (intro mult_right_mono) auto
    also have "\<dots> = \<bar>x\<bar> / 2 ^ 53" by simp
    finally have "u / 2 \<le> \<bar>x\<bar> / 2 ^ 53" .
    moreover have "(0::rat) \<le> 2 powi (- 1075)" by simp
    ultimately show ?thesis using err by linarith
  qed
qed

text \<open>The value of \<open>fl\<close>, from the exponent of the argument and the rounded significand.\<close>

lemma fl_at:
  assumes "(2::rat) powi e \<le> \<bar>x\<bar>" and "\<bar>x\<bar> < 2 powi (e + 1)" and "- 1022 \<le> e" and "e \<le> 1023"
    and "\<bar>of_int k - x / 2 powi (e - 52)\<bar> < 1 / 2"
    and "\<bar>of_int k * (2::rat) powi (e - 52)\<bar> < 2 powi 41"
  shows "fl x = Finite (of_int k * 2 powi (e - 52))"
proof -
  have e: "expo \<bar>x\<bar> = e" using assms(1-4) by (rule expo_unique)
  have k: "roundEven (x / 2 powi (e - 52)) = k" using assms(5) by (rule roundEven_unique)
  have "\<not> overflowThreshold \<le> \<bar>of_int k * (2::rat) powi (e - 52)\<bar>"
    using assms(6) small_below_threshold by linarith
  then show ?thesis
    unfolding fl_def Let_def e k by simp
qed


lemma Math_round_near:
  assumes "\<bar>r - of_int n\<bar> < 1 / 2"
  shows "Math_round (Finite r) = Finite (of_int n)"
proof -
  have "of_int n \<le> r + 1 / 2" and "r + 1 / 2 < of_int n + 1"
    using assms by linarith+
  then have "\<lfloor>r + 1 / 2\<rfloor> = n" by (rule floor_unique)
  then show ?thesis by simp
qed

lemma round_fl_near:
  assumes "\<bar>x\<bar> \<le> 2 powi 40" and "\<bar>x - of_int n\<bar> \<le> 1 / 4"
  shows "Math_round (fl x) = Finite (of_int n)"
proof -
  obtain r where r: "fl x = Finite r" "\<bar>r - x\<bar> \<le> 1 / 8192"
    using fl_small [OF assms(1)] by blast
  have "\<bar>r - of_int n\<bar> < 1 / 2" using r(2) assms(2) by linarith
  then show ?thesis unfolding r(1) by (rule Math_round_near)
qed

lemma percent_near:
  assumes "b \<noteq> 0" and "\<bar>a / b\<bar> \<le> 2 ^ 30"
    and "of_int n - 7 / 16 \<le> a / b * 100" and "a / b * 100 \<le> of_int n + 7 / 16"
  shows "Math_round (js_mul (js_div (Finite a) (Finite b)) (Finite 100)) = Finite (of_int n)"
proof -
  have "\<bar>a / b\<bar> \<le> 2 powi 40" using assms(2) by simp
  then obtain q where q: "fl (a / b) = Finite q" "\<bar>q - a / b\<bar> \<le> 1 / 8192"
    using fl_small by blast
  have "\<bar>q\<bar> \<le> 2 ^ 30 + 1" using q(2) assms(2) by linarith
  then have "\<bar>q * 100\<bar> \<le> 2 powi 40" by (simp add: abs_mult)
  then obtain p where p: "fl (q * 100) = Finite p" "\<bar>p - q * 100\<bar> \<le> 1 / 8192"
    using fl_small by blast
  have "\<bar>p - of_int n\<bar> < 1 / 2" using p(2) q(2) assms(3,4) by linarith
  then have "Math_round (Finite p) = Finite (of_int n)" by (rule Math_round_near)
  then show ?thesis using assms(1) q(1) p(1) by simp
qed

lemma fl_350: "fl 350 = Finite 350"
  using fl_at [of 8 350 "350 * 2 ^ 44"] by simp

text \<open>
  The quotient and the product are rounded one after the other, as in the program:
  1104 in a viewport of 1920 gives 57.49999999999999, hence 57 and not the 58 of the
  exact 57.5; 970 in a viewport of 400 gives 242 and not 243.
\<close>

lemma percentage_rounds_twice:
  "Math_round (js_mul (js_div (Finite 1104) (Finite 1920)) (Finite 100)) = Finite 57"
  "Math_round (js_mul (js_div (Finite 970) (Finite 400)) (Finite 100)) = Finite 242"
proof -
  define q :: rat where "q = 5179139571476070 / 2 ^ 53"
  define p :: rat where "p = 8092405580431359 / 2 ^ 47"
  have a: "fl (23 / 40) = Finite q"
    using fl_at [of "- 1" "23 / 40" 5179139571476070] by (simp add: q_def)
  have b: "fl (q * 100) = Finite p"
    using fl_at [of 5 "q * 100" 8092405580431359] by (simp add: q_def p_def)
  have c: "\<lfloor>p + 1 / 2\<rfloor> = 57" by (simp add: p_def floor_eq_iff)
  show "Math_round (js_mul (js_div (Finite 1104) (Finite 1920)) (Finite 100)) = Finite 57"
    by (simp add: a b c)
  define q' :: rat where "q' = 5460614548186726 / 2 ^ 51"
  define p' :: rat where "p' = 8532210231541759 / 2 ^ 45"
  have a': "fl (97 / 40) = Finite q'"
    using fl_at [of 1 "97 / 40" 5460614548186726] by (simp add: q'_def)
  have b': "fl (q' * 100) = Finite p'"
    using fl_at [of 7 "q' * 100" 8532210231541759] by (simp add: q'_def p'_def)
  have c': "\<lfloor>p' + 1 / 2\<rfloor> = 242" by (simp add: p'_def floor_eq_iff)
  show "Math_round (js_mul (js_div (Finite 970) (Finite 400)) (Finite 100)) = Finite 242"
    by (simp add: a' b' c')
qed

text \<open>
  The sum \<^verbatim>\<open>width + left + (viewport - right)\<close> in doubles, for a right edge that is the
  double \<^verbatim>\<open>left + width\<close> and lies inside a viewport of whole pixels.
\<close>

lemma total_available:
  assumes "0 \<le> a" and "0 \<le> b" and "fl (a + b) = Finite c"
    and "c \<le> of_int n" and "n < 2 ^ 31"
  shows "Math_round (js_add (js_add (Finite b) (Finite a))
                            (js_sub (Finite (of_int n)) (Finite c))) = Finite (of_int n)"
proof -
  have "(- 1075 :: int) \<le> - 13" by simp
  then have "(2::rat) powi (- 1075) \<le> 2 powi (- 13)" by (rule pow2_le_iff [THEN iffD2])
  then have t: "(2::rat) powi (- 1075) \<le> 1 / 8192" by simp
  have n: "(of_int n :: rat) \<le> 2 ^ 31"
    using assms(5) by (metis of_int_le_numeral_power_cancel_iff less_imp_le)
  have rel: "\<bar>c - (a + b)\<bar> \<le> \<bar>a + b\<bar> / 2 ^ 53 + 2 powi (- 1075)"
    using assms(3) by (rule fl_rel)
  have ab: "\<bar>a + b\<bar> = a + b" using assms(1,2) by simp
  have n': "(of_int n :: rat) \<le> 2147483648" using n by simp
  define h where "h = (a + b) / 2 ^ 53"
  have "(a + b) / 2 ^ 53 \<le> (a + b) / 2 ^ 1"
    using assms(1,2) by (intro divide_left_mono power_increasing) auto
  then have h: "h \<le> a / 2 + b / 2" by (simp add: h_def add_divide_distrib)
  have "\<bar>c - (a + b)\<bar> \<le> h + 2 powi (- 1075)" using rel unfolding ab h_def .
  then have "a + b - h \<le> c + 1 / 8192" using t by linarith
  then have x32: "a + b \<le> 4294967298" using h n' assms(4) by linarith
  then have "\<bar>a + b\<bar> \<le> 2 powi 40" using assms(1,2) by simp
  then obtain c' where "fl (a + b) = Finite c'" "\<bar>c' - (a + b)\<bar> \<le> 1 / 8192"
    using fl_small by blast
  then have c: "\<bar>c - (a + b)\<bar> \<le> 1 / 8192" using assms(3) by simp
  have s1: "js_add (Finite b) (Finite a) = Finite c"
    using assms(3) by (simp add: add.commute)
  have "\<bar>of_int n - c\<bar> \<le> 2147483649" using c n' assms(1,2,4) by linarith
  then have "\<bar>of_int n - c\<bar> \<le> 2 powi 40" by simp
  then obtain d where d: "fl (of_int n - c) = Finite d" "\<bar>d - (of_int n - c)\<bar> \<le> 1 / 8192"
    using fl_small by blast
  have "\<bar>c + d\<bar> \<le> 2147483649" using d(2) c n' assms(1,2,4) by linarith
  then have "\<bar>c + d\<bar> \<le> 2 powi 40" by simp
  then obtain s where s: "fl (c + d) = Finite s" "\<bar>s - (c + d)\<bar> \<le> 1 / 8192"
    using fl_small by blast
  have "\<bar>s - of_int n\<bar> < 1 / 2" using s(2) d(2) by linarith
  then have m: "Math_round (Finite s) = Finite (of_int n)" by (rule Math_round_near)
  have s2: "js_sub (Finite (of_int n)) (Finite c) = Finite d" using d(1) by simp
  have s3: "js_add (Finite c) (Finite d) = Finite s" using s(1) by simp
  show ?thesis unfolding s1 s2 s3 by (rule m)
qed

subsection \<open>The geometry record\<close>

lemma calculateAdSlotSpace_measurable:
  assumes "boundingClientRect el = Some r" and "measurable el"
  shows "\<exists>pr. calculateAdSlotSpace vs (Some el) = Some (availableSpace r vs pr)"
  using assms
  by (auto simp: calculateAdSlotSpace_def measureBody_def measurable_def
      getBoundingClientRect_def split: option.splits)

lemma testElement_box: "boundingClientRect testElement = Some testBox"
  by (simp add: testElement_def)

lemma testElement_measurable: "measurable testElement"
  by (simp add: measurable_def testElement_def testParent_def)

lemma testBox_layoutBox: "layoutBox testBox"
  by (simp add: layoutBox_def testBox_def fl_350)

lemma subPixelBox_layoutBox: "layoutBox subPixelBox"
proof -
  have "fl (1403 / 4) = Finite (1403 / 4)"
    using fl_at [of 8 "1403 / 4" "1403 * 2 ^ 42"] by simp
  then show ?thesis
    by (simp add: layoutBox_def subPixelBox_def fl_350)
qed

text \<open>
  Claim C1. The box 300 by 250 at top 100, left 50 (right 350, bottom 350), measured in a
  viewport of 1920 by 1080, gives stretchLeft 50, stretchRight 1570, stretchUp 100,
  stretchDown 730, viewportWidthPercentage 16, viewportHeightPercentage 23 and
  isVisible true, whatever the parent is, as long as its layout can be read.
\<close>

theorem calculateAdSlotSpace_test_slot:
  assumes "boundingClientRect el = Some testBox" and "measurable el"
  shows "field (calculateAdSlotSpace testViewport (Some el)) ''stretchLeft''
           = Some (JNum (Finite 50))
       \<and> field (calculateAdSlotSpace testViewport (Some el)) ''stretchRight''
           = Some (JNum (Finite 1570))
       \<and> field (calculateAdSlotSpace testViewport (Some el)) ''stretchUp''
           = Some (JNum (Finite 100))
       \<and> field (calculateAdSlotSpace testViewport (Some el)) ''stretchDown''
           = Some (JNum (Finite 730))
       \<and> field (calculateAdSlotSpace testViewport (Some el)) ''viewportWidthPercentage''
           = Some (JNum (Finite 16))
       \<and> field (calculateAdSlotSpace testViewport (Some el)) ''viewportHeightPercentage''
           = Some (JNum (Finite 23))
       \<and> field (calculateAdSlotSpace testViewport (Some el)) ''isVisible''
           = Some (JBool True)"
proof -
  obtain pr where
    c: "calculateAdSlotSpace testViewport (Some el) = Some (availableSpace testBox testViewport pr)"
    using calculateAdSlotSpace_measurable [OF assms] by blast
  have r: "Math_round (js_sub (Finite 1920) (Finite 350)) = Finite 1570"
    using round_fl_near [of "1920 - 350" 1570] by simp
  have d: "Math_round (js_sub (Finite 1080) (Finite 350)) = Finite 730"
    using round_fl_near [of "1080 - 350" 730] by simp
  have w: "Math_round (js_mul (js_div (Finite 300) (Finite 1920)) (Finite 100)) = Finite 16"
    using percent_near [of 1920 300 16] by simp
  have h: "Math_round (js_mul (js_div (Finite 250) (Finite 1080)) (Finite 100)) = Finite 23"
    using percent_near [of 1080 250 23] by simp
  have l: "\<lfloor>(101::rat) / 2\<rfloor> = 50" and u: "\<lfloor>(201::rat) / 2\<rfloor> = 100"
    by (simp_all add: floor_eq_iff)
  show ?thesis
    unfolding c field_def
    by (simp add: availableSpace_def rndNum_def rnd_def testBox_def testViewport_def
        r d w h l u del: js_sub.simps js_mul.simps js_div.simps)
qed

theorem calculateAdSlotSpace_test_slot_witness:
  "boundingClientRect testElement = Some testBox \<and> measurable testElement
   \<and> field (calculateAdSlotSpace testViewport (Some testElement)) ''stretchLeft''
       = Some (JNum (Finite 50))
   \<and> field (calculateAdSlotSpace testViewport (Some testElement)) ''stretchRight''
       = Some (JNum (Finite 1570))
   \<and> field (calculateAdSlotSpace testViewport (Some testElement)) ''stretchUp''
       = Some (JNum (Finite 100))
   \<and> field (calculateAdSlotSpace testViewport (Some testElement)) ''stretchDown''
       = Some (JNum (Finite 730))
   \<and> field (calculateAdSlotSpace testViewport (Some testElement)) ''viewportWidthPercentage''
       = Some (JNum (Finite 16))
   \<and> field (calculateAdSlotSpace testViewport (Some testElement)) ''viewportHeightPercentage''
       = Some (JNum (Finite 23))
   \<and> field (calculateAdSlotSpace testViewport (Some testElement)) ''isVisible''
       = Some (JBool True)"
  using calculateAdSlotSpace_test_slot [OF testElement_box testElement_measurable]
    testElement_box testElement_measurable
  by simp

text \<open>
  Claim C2. For an element lying fully inside the viewport (right edge at most the
  viewport's width, bottom edge at most its height, left and top not negative),
  totalAvailableWidth is the viewport's width and totalAvailableHeight its height. The
  element's rectangle is one the layout engine reports (\<open>layoutBox\<close>, sub-pixel positions
  included) and the viewport's width and height are whole numbers of pixels below
  \<open>2 ^ 31\<close>, as \<^verbatim>\<open>innerWidth\<close> and \<^verbatim>\<open>innerHeight\<close> are; the sums are the program's, in doubles.
\<close>

theorem totalAvailable_is_viewport:
  assumes "boundingClientRect el = Some r" and "measurable el" and "layoutBox r"
    and "vp_width vs = of_int w" and "w < 2 ^ 31"
    and "vp_height vs = of_int h" and "h < 2 ^ 31"
    and "rect_right r \<le> vp_width vs" and "rect_bottom r \<le> vp_height vs"
    and "0 \<le> rect_left r" and "0 \<le> rect_top r"
  shows "field (calculateAdSlotSpace vs (Some el)) ''totalAvailableWidth''
           = Some (JNum (Finite (vp_width vs)))
       \<and> field (calculateAdSlotSpace vs (Some el)) ''totalAvailableHeight''
           = Some (JNum (Finite (vp_height vs)))"
proof -
  obtain pr where c: "calculateAdSlotSpace vs (Some el) = Some (availableSpace r vs pr)"
    using calculateAdSlotSpace_measurable [OF assms(1,2)] by blast
  have b: "0 \<le> rect_width r" "0 \<le> rect_height r"
    "fl (rect_left r + rect_width r) = Finite (rect_right r)"
    "fl (rect_top r + rect_height r) = Finite (rect_bottom r)"
    using assms(3) by (simp_all add: layoutBox_def)
  have tw: "Math_round (js_add (js_add (Finite (rect_width r)) (Finite (rect_left r)))
                               (js_sub (Finite (vp_width vs)) (Finite (rect_right r))))
              = Finite (vp_width vs)"
    unfolding assms(4)
    by (rule total_available [OF assms(10) b(1) b(3) assms(8) [unfolded assms(4)] assms(5)])
  have th: "Math_round (js_add (js_add (Finite (rect_height r)) (Finite (rect_top r)))
                               (js_sub (Finite (vp_height vs)) (Finite (rect_bottom r))))
              = Finite (vp_height vs)"
    unfolding assms(6)
    by (rule total_available [OF assms(11) b(2) b(4) assms(9) [unfolded assms(6)] assms(7)])
  show ?thesis
    unfolding c field_def
    by (simp add: availableSpace_def rndNum_def tw th del: js_add.simps js_sub.simps)
qed

theorem totalAvailable_is_viewport_witness:
  "boundingClientRect testElement = Some testBox \<and> measurable testElement
   \<and> layoutBox testBox
   \<and> vp_width testViewport = of_int 1920 \<and> (1920::int) < 2 ^ 31
   \<and> vp_height testViewport = of_int 1080 \<and> (1080::int) < 2 ^ 31
   \<and> rect_right testBox \<le> vp_width testViewport
   \<and> rect_bottom testBox \<le> vp_height testViewport
   \<and> 0 \<le> rect_left testBox \<and> 0 \<le> rect_top testBox
   \<and> field (calculateAdSlotSpace testViewport (Some testElement)) ''totalAvailableWidth''
       = Some (JNum (Finite 1920))
   \<and> field (calculateAdSlotSpace testViewport (Some testElement)) ''totalAvailableHeight''
       = Some (JNum (Finite 1080))
   \<and> boundingClientRect subPixelElement = Some subPixelBox \<and> measurable subPixelElement
   \<and> layoutBox subPixelBox
   \<and> rect_right subPixelBox \<le> vp_width testViewport
   \<and> rect_bottom subPixelBox \<le> vp_height testViewport
   \<and> 0 \<le> rect_left subPixelBox \<and> 0 \<le> rect_top subPixelBox
   \<and> field (calculateAdSlotSpace testViewport (Some subPixelElement)) ''totalAvailableWidth''
       = Some (JNum (Finite 1920))
   \<and> field (calculateAdSlotSpace testViewport (Some subPixelElement)) ''totalAvailableHeight''
       = Some (JNum (Finite 1080))"
proof -
  have e: "vp_width testViewport = of_int 1920" by (simp add: testViewport_def)
  have f: "vp_height testViewport = of_int 1080" by (simp add: testViewport_def)
  have g: "(1920::int) < 2 ^ 31" "(1080::int) < 2 ^ 31" by simp_all
  have i: "rect_right testBox \<le> vp_width testViewport"
    "rect_bottom testBox \<le> vp_height testViewport"
    "0 \<le> rect_left testBox" "0 \<le> rect_top testBox"
    by (simp_all add: testBox_def testViewport_def)
  have j: "rect_right subPixelBox \<le> vp_width testViewport"
    "rect_bottom subPixelBox \<le> vp_height testViewport"
    "0 \<le> rect_left subPixelBox" "0 \<le> rect_top subPixelBox"
    by (simp_all add: subPixelBox_def testViewport_def)
  have k: "boundingClientRect subPixelElement = Some subPixelBox"
    by (simp add: subPixelElement_def)
  have m: "measurable subPixelElement"
    by (simp add: measurable_def subPixelElement_def)
  show ?thesis
    using totalAvailable_is_viewport [OF testElement_box testElement_measurable
        testBox_layoutBox e g(1) f g(2) i]
      totalAvailable_is_viewport [OF k m subPixelBox_layoutBox e g(1) f g(2) j]
      testElement_box testElement_measurable testBox_layoutBox i j k m subPixelBox_layoutBox
    by (simp add: testViewport_def)
qed

text \<open>
  Claim C7. The claim asks for a \<^verbatim>\<open>stretchPotential\<close> field in every measurement
  record, and the module's test and its documentation expect one. Neither copy of
  \<^verbatim>\<open>calculateAdSlotSpace\<close> writes it: the record never has that key, for the test's
  element as for any other.
\<close>

theorem calculateAdSlotSpace_no_stretchPotential:
  "field (calculateAdSlotSpace vs element) ''stretchPotential'' = None
   \<and> field (calculateAdSlotSpace_1 vs element) ''stretchPotential'' = None"
  by (simp add: field_def calculateAdSlotSpace_def calculateAdSlotSpace_1_def measureBody_def
      availableSpace_def availableSpace_1_def split: option.splits sum.splits)

text \<open>
  Claim C8, as stated, fails: there is no fallback. In a viewport zero pixels wide the
  test slot's viewportWidthPercentage is \<^verbatim>\<open>Infinity\<close>.
\<close>

theorem percentage_counterexample:
  "vp_width zeroWidthViewport = 0
   \<and> field (calculateAdSlotSpace zeroWidthViewport (Some testElement))
        ''viewportWidthPercentage'' = Some (JNum Infinity)"
  by (simp add: calculateAdSlotSpace_def measureBody_def getBoundingClientRect_def field_def
      availableSpace_def testElement_def testParent_def testBox_def zeroWidthViewport_def
      rndNum_def)

text \<open>
  Claim C8, amended. When a dimension of the viewport is zero there is no fallback: the
  percentage field of that dimension is what the division by zero gives, \<^verbatim>\<open>Infinity\<close>
  for an element of positive size, \<^verbatim>\<open>NaN\<close> for one of size zero (and \<^verbatim>\<open>-Infinity\<close> for a
  negative size).
\<close>

theorem percentage_in_zero_viewport:
  assumes "boundingClientRect el = Some r" and "measurable el"
  shows "(vp_width vs = 0 \<longrightarrow>
            field (calculateAdSlotSpace vs (Some el)) ''viewportWidthPercentage''
              = Some (JNum (if 0 < rect_width r then Infinity
                            else if rect_width r = 0 then NaN else NegInfinity)))
       \<and> (vp_height vs = 0 \<longrightarrow>
            field (calculateAdSlotSpace vs (Some el)) ''viewportHeightPercentage''
              = Some (JNum (if 0 < rect_height r then Infinity
                            else if rect_height r = 0 then NaN else NegInfinity)))"
proof -
  obtain pr where c: "calculateAdSlotSpace vs (Some el) = Some (availableSpace r vs pr)"
    using calculateAdSlotSpace_measurable [OF assms(1,2)] by blast
  show ?thesis
    unfolding c field_def
    by (simp add: availableSpace_def rndNum_def)
qed

theorem percentage_in_zero_viewport_witness:
  "boundingClientRect testElement = Some testBox \<and> measurable testElement
   \<and> vp_width zeroViewport = 0 \<and> vp_height zeroViewport = 0
   \<and> field (calculateAdSlotSpace zeroViewport (Some testElement)) ''viewportWidthPercentage''
       = Some (JNum Infinity)
   \<and> field (calculateAdSlotSpace zeroViewport (Some testElement)) ''viewportHeightPercentage''
       = Some (JNum Infinity)"
  using percentage_in_zero_viewport [OF testElement_box testElement_measurable,
      where vs = zeroViewport]
    testElement_box testElement_measurable
  by (simp add: zeroViewport_def testBox_def)

subsection \<open>Failures of one slot\<close>

lemma collectStep_None:
  "calc (findAdSlotElement doc (code u)) = None \<Longrightarrow> collectStep calc doc sd u = sd"
  by (simp add: collectStep_def)

lemma collectStep_lookup:
  "map_of (collectStep calc doc sd u) c =
     (if code u = c \<and> c \<noteq> [] \<and> calc (findAdSlotElement doc c) \<noteq> None
      then map_option JObj (calc (findAdSlotElement doc c)) else map_of sd c)"
  by (auto simp: collectStep_def update_conv' split: option.splits)

lemma collect_lookup:
  "map_of (foldl (collectStep calc doc) acc us) c =
     (if c \<noteq> [] \<and> c \<in> code ` set us \<and> calc (findAdSlotElement doc c) \<noteq> None
      then map_option JObj (calc (findAdSlotElement doc c)) else map_of acc c)"
proof (induction us rule: rev_induct)
  case Nil
  then show ?case by simp
next
  case (snoc u us)
  show ?case
    unfolding foldl_append foldl.simps collectStep_lookup snoc by auto
qed

lemma find_ad1: "findAdSlotElement testDocument ''ad-1'' = Some brokenElement"
  by (simp add: findAdSlotElement_def strategies_def testDocument_def)

lemma find_ad2: "findAdSlotElement testDocument ''ad-2'' = Some testElement"
  by (simp add: findAdSlotElement_def strategies_def testDocument_def)

text \<open>
  Claim C5. \<^verbatim>\<open>calculateAdSlotSpace(null)\<close> is \<^verbatim>\<open>null\<close>; the function never raises (its
  result is a record or \<^verbatim>\<open>null\<close>), and it is \<^verbatim>\<open>null\<close> exactly when reading the layout of
  the element or of its parent raises. In \<^verbatim>\<open>collectResponsiveStretchData\<close> a slot whose
  measurement is \<^verbatim>\<open>null\<close> is skipped: the result is the one the other slots give without
  it, and every slot that can be measured has its record in the result.
\<close>

theorem layout_failure_skips_one_slot:
  "calculateAdSlotSpace vs None = None
   \<and> (calculateAdSlotSpace vs (Some el) = None \<longleftrightarrow> \<not> measurable el)
   \<and> (calculateAdSlotSpace vs (findAdSlotElement doc (code u)) = None \<longrightarrow>
        collectResponsiveStretchData vs doc (Some (us1 @ u # us2))
          = collectResponsiveStretchData vs doc (Some (us1 @ us2)))
   \<and> (u \<in> set us \<and> code u \<noteq> [] \<and>
        calculateAdSlotSpace vs (findAdSlotElement doc (code u)) = Some m \<longrightarrow>
        map_of (collectResponsiveStretchData vs doc (Some us)) (code u) = Some (JObj m))"
proof -
  have a: "calculateAdSlotSpace vs None = None"
    by (simp add: calculateAdSlotSpace_def)
  have b: "calculateAdSlotSpace vs (Some el) = None \<longleftrightarrow> \<not> measurable el"
    by (auto simp: calculateAdSlotSpace_def measureBody_def measurable_def
        getBoundingClientRect_def split: option.splits sum.splits)
  have c: "calculateAdSlotSpace vs (findAdSlotElement doc (code u)) = None \<longrightarrow>
        collectResponsiveStretchData vs doc (Some (us1 @ u # us2))
          = collectResponsiveStretchData vs doc (Some (us1 @ us2))"
    by (simp add: collectResponsiveStretchData_def collectStep_None)
  have d: "u \<in> set us \<and> code u \<noteq> [] \<and>
        calculateAdSlotSpace vs (findAdSlotElement doc (code u)) = Some m \<longrightarrow>
        map_of (collectResponsiveStretchData vs doc (Some us)) (code u) = Some (JObj m)"
    by (auto simp: collectResponsiveStretchData_def collect_lookup)
  show ?thesis using a b c d by blast
qed

theorem layout_failure_skips_one_slot_witness:
  "calculateAdSlotSpace testViewport (findAdSlotElement testDocument (code (unit ''ad-1''))) = None
   \<and> \<not> measurable brokenElement
   \<and> collectResponsiveStretchData testViewport testDocument
        (Some ([] @ unit ''ad-1'' # [unit ''ad-2'']))
       = collectResponsiveStretchData testViewport testDocument (Some ([] @ [unit ''ad-2'']))
   \<and> unit ''ad-2'' \<in> set [unit ''ad-1'', unit ''ad-2''] \<and> code (unit ''ad-2'') \<noteq> []
   \<and> map_of (collectResponsiveStretchData testViewport testDocument
                (Some [unit ''ad-1'', unit ''ad-2''])) (code (unit ''ad-2'')) \<noteq> None"
proof -
  have m: "\<not> measurable brokenElement" by (simp add: measurable_def brokenElement_def)
  have n: "calculateAdSlotSpace testViewport
             (findAdSlotElement testDocument (code (unit ''ad-1''))) = None"
    using layout_failure_skips_one_slot [where vs = testViewport and el = brokenElement] m
    by (simp add: unit_def find_ad1)
  obtain pr where
    s: "calculateAdSlotSpace testViewport (findAdSlotElement testDocument (code (unit ''ad-2'')))
          = Some (availableSpace testBox testViewport pr)"
    using calculateAdSlotSpace_measurable [OF testElement_box testElement_measurable]
    by (auto simp: unit_def find_ad2)
  have k: "unit ''ad-2'' \<in> set [unit ''ad-1'', unit ''ad-2''] \<and> code (unit ''ad-2'') \<noteq> []"
    by (simp add: unit_def)
  show ?thesis
    using m n k s
      layout_failure_skips_one_slot [where vs = testViewport and el = brokenElement
            and doc = testDocument and u = "unit ''ad-1''"
            and ?us1.0 = "[]" and ?us2.0 = "[unit ''ad-2'']"]
      layout_failure_skips_one_slot [where vs = testViewport and doc = testDocument
            and u = "unit ''ad-2''" and us = "[unit ''ad-1'', unit ''ad-2'']"
            and m = "availableSpace testBox testViewport pr"]
    by simp
qed

subsection \<open>The walk over the ancestors\<close>

lemma fold_min_Min: "foldl min (a::rat) ws = Min (set (a # ws))"
proof -
  have "foldl min a ws = fold min ws a"
    by (simp add: foldl_conv_fold min.commute)
  then show ?thesis using Min.set_eq_fold [of a ws] by simp
qed

lemma foldl_Math_min_Finite:
  "foldl Math_min (Finite a) (map Finite ws) = Finite (foldl min a ws)"
  by (induction ws arbitrary: a) simp_all

lemma foldl_Math_min_least:
  "foldl Math_min Infinity (map Finite ws) = least ws"
  by (cases ws) (simp_all add: least_def foldl_Math_min_Finite fold_min_Min)

lemma widthWalk_chain:
  "\<forall>x \<in> set (chain e). readable x \<Longrightarrow>
   widthWalk m e = Inr (foldl Math_min m (map Finite (widths (filter limitsWidth (chain e)))))"
proof (induction m e rule: widthWalk.induct)
  case (1 maxWidth)
  then show ?case by simp
next
  case (2 maxWidth r st body parent)
  show ?case
  proof (cases body)
    case True
    then show ?thesis by simp
  next
    case False
    with "2.prems" obtain s b where sb: "st = Some s" "r = Some b"
      by (auto simp: readable_def)
    have rest: "\<forall>x \<in> set (chain parent). readable x"
      using "2.prems" False by simp
    show ?thesis
      using "2.IH" [OF False sb(1) sb(2) rest] False sb
      by (simp add: limitsWidth_def)
  qed
qed

text \<open>
  Claim C6, as stated, fails: the walk starts at the element itself, so the element's own
  width counts. The test slot, 300 wide inside a parent 1200 wide, gets 300; the least
  width among its ancestors is 1200.
\<close>

theorem maxAvailableWidth_counterexample:
  "getMaxAvailableWidth testElement = Inr (Finite 300)
   \<and> ancestorsMinWidth testElement = Inr (Finite 1200)"
  by (simp add: getMaxAvailableWidth_def ancestorsMinWidth_def testElement_def testParent_def
      testBox_def plain_def)

text \<open>
  Claim C6, amended. When the style and the layout of every element visited can be read,
  \<^verbatim>\<open>getMaxAvailableWidth\<close> is the least width among the element itself and its ancestors
  below \<^verbatim>\<open>document.body\<close>, leaving out those whose display is \<^verbatim>\<open>contents\<close> or whose
  position is \<^verbatim>\<open>absolute\<close>; it is \<^verbatim>\<open>Infinity\<close> when none is left. An absolutely
  positioned ancestor (or one whose display is \<^verbatim>\<open>contents\<close>) can be taken out of the
  chain without changing the result, so on a three-level chain the middle ancestor's
  width never lowers it.
\<close>

theorem maxAvailableWidth_least_of_chain:
  assumes "\<forall>x \<in> set (chain (Some el)). readable x"
  shows "getMaxAvailableWidth el = Inr (least (widths (filter limitsWidth (chain (Some el)))))
     \<and> (position ms = ''absolute'' \<or> display ms = ''contents'' \<longrightarrow>
          getMaxAvailableWidth (Element r s b (Some (Element (Some mr) (Some ms) False p)))
            = getMaxAvailableWidth (Element r s b p))"
proof -
  have a: "getMaxAvailableWidth el = Inr (least (widths (filter limitsWidth (chain (Some el)))))"
    unfolding getMaxAvailableWidth_def
    using widthWalk_chain [OF assms, of Infinity] by (simp add: foldl_Math_min_least)
  have b: "position ms = ''absolute'' \<or> display ms = ''contents'' \<longrightarrow>
          getMaxAvailableWidth (Element r s b (Some (Element (Some mr) (Some ms) False p)))
            = getMaxAvailableWidth (Element r s b p)"
    by (simp add: getMaxAvailableWidth_def split: option.splits)
  show ?thesis using a b by blast
qed

theorem maxAvailableWidth_least_of_chain_witness:
  "list_all readable (chain (Some threeLevel))
   \<and> getMaxAvailableWidth threeLevel = Inr (Finite 300)
   \<and> getMaxAvailableWidth threeLevel = getMaxAvailableWidth testElement"
proof -
  have r: "\<forall>x \<in> set (chain (Some threeLevel)). readable x"
    by (simp add: threeLevel_def absoluteLayer_def testParent_def readable_def)
  have l: "least (widths (filter limitsWidth (chain (Some threeLevel)))) = Finite 300"
    by (simp add: threeLevel_def absoluteLayer_def testParent_def limitsWidth_def plain_def
        least_def testBox_def)
  have t: "threeLevel = Element (Some testBox) (Some plain) False
             (Some (Element (Some \<lparr>rect_width = 100, rect_height = 800, rect_top = 0,
                                    rect_left = 0, rect_right = 100, rect_bottom = 800\<rparr>)
                            (Some \<lparr>display = ''block'', position = ''absolute''\<rparr>) False
                            (Some testParent)))"
    by (simp add: threeLevel_def absoluteLayer_def)
  have e: "testElement = Element (Some testBox) (Some plain) False (Some testParent)"
    by (simp add: testElement_def)
  note inst = maxAvailableWidth_least_of_chain [OF r,
        where ms = "\<lparr>display = ''block'', position = ''absolute''\<rparr>"
          and r = "Some testBox" and s = "Some plain" and b = False
          and mr = "\<lparr>rect_width = 100, rect_height = 800, rect_top = 0,
                      rect_left = 0, rect_right = 100, rect_bottom = 800\<rparr>"
          and p = "Some testParent"]
  have a1: "getMaxAvailableWidth threeLevel = Inr (Finite 300)"
    using inst [THEN conjunct1] l by simp
  have a2: "getMaxAvailableWidth threeLevel = getMaxAvailableWidth testElement"
    unfolding t e by (rule inst [THEN conjunct2, rule_format]) simp
  have rr: "list_all readable (chain (Some threeLevel))"
    using r by (simp add: list_all_iff)
  show ?thesis
    using rr a1 a2 by blast
qed

subsection \<open>The deep merge\<close>

lemma mergeDeep_append: "mergeDeep t (s1 @ s2) = mergeDeep (mergeDeep t s1) s2"
  by (induction s1 arbitrary: t) auto

lemma mergeDeep_keep: "k \<notin> fst ` set s \<Longrightarrow> map_of (mergeDeep t s) k = map_of t k"
  by (induction s arbitrary: t) (auto simp: update_conv')

lemma set_pushNew: "set (pushNew ys xs) = set ys \<union> set xs"
  by (induction xs arbitrary: ys) auto

lemma pushNew_known: "set xs \<subseteq> set ys \<Longrightarrow> pushNew ys xs = ys"
  by (induction xs arbitrary: ys) auto

lemma pushNew_twice: "pushNew (pushNew ys xs) xs = pushNew ys xs"
  by (rule pushNew_known) (simp add: set_pushNew)

lemma merge_idem:
  "(wf_obj s \<longrightarrow> (\<forall>t. mergeDeep (mergeDeep t s) s = mergeDeep t s))"
  "(wf_jv v \<longrightarrow> (\<forall>old. mergeValue (Some (mergeValue old v)) v = mergeValue old v))"
proof (induction s and v rule: wf_obj_wf_jv.induct)
  case 1
  then show ?case by simp
next
  case (2 k v kvs)
  show ?case
  proof (intro impI allI)
    fix t
    assume wf: "wf_obj ((k, v) # kvs)"
    then have nk: "k \<notin> fst ` set kvs" and wv: "wf_jv v" and wk: "wf_obj kvs" by auto
    define x where "x = mergeValue (map_of t k) v"
    define T where "T = mergeDeep (AList.update k x t) kvs"
    have look: "map_of T k = Some x"
      unfolding T_def by (simp add: mergeDeep_keep [OF nk] update_conv')
    have fixed: "mergeValue (Some x) v = x"
      unfolding x_def using "2.IH"(1) wv by blast
    have "mergeDeep T ((k, v) # kvs) = mergeDeep (AList.update k x T) kvs"
      by (simp add: look fixed)
    also have "\<dots> = mergeDeep T kvs"
      by (simp add: update_triv [OF look])
    also have "\<dots> = T"
      unfolding T_def using "2.IH"(2) wk by blast
    finally show "mergeDeep (mergeDeep t ((k, v) # kvs)) ((k, v) # kvs) = mergeDeep t ((k, v) # kvs)"
      by (simp add: T_def x_def)
  qed
qed (auto simp: pushNew_twice pushNew_known split: option.splits jv.splits)

lemma mergeDeep_idem: "wf_obj s \<Longrightarrow> mergeDeep (mergeDeep t s) s = mergeDeep t s"
  using merge_idem(1) by blast

lemma mergeValue_idem: "wf_jv v \<Longrightarrow> mergeValue (Some (mergeValue old v)) v = mergeValue old v"
  using merge_idem(2) by blast

lemma apart_Cons: "apart (k # p) (k' # q) \<longleftrightarrow> k \<noteq> k' \<or> apart p q"
  by (auto simp: apart_def)

lemma apart_Nil [simp]: "\<not> apart [] q" "\<not> apart p []"
  by (simp_all add: apart_def)

lemma nest_frame:
  "apart p ks \<Longrightarrow>
   getPath p (mergeValue old (nest ks v)) = (case old of None \<Rightarrow> None | Some x \<Rightarrow> getPath p x)"
proof (induction ks arbitrary: p old)
  case Nil
  then show ?case by simp
next
  case (Cons k ks)
  then obtain k' p' where p: "p = k' # p'" by (cases p) auto
  define os where "os = (case old of Some (JObj os) \<Rightarrow> os | _ \<Rightarrow> [])"
  have old: "(case old of None \<Rightarrow> None | Some x \<Rightarrow> getPath (k' # p') x)
               = getPath (k' # p') (JObj os)"
    unfolding os_def by (auto split: option.splits jv.splits)
  have m: "mergeValue old (nest (k # ks) v)
             = JObj (AList.update k (mergeValue (map_of os k) (nest ks v)) os)"
    by (simp add: os_def)
  show ?case
  proof (cases "k' = k")
    case True
    with Cons.prems p have ap: "apart p' ks" by (simp add: apart_Cons)
    show ?thesis
      unfolding p old m using True Cons.IH [OF ap, of "map_of os k"]
      by (simp add: update_conv')
  next
    case False
    then show ?thesis
      unfolding p old m by (simp add: update_conv')
  qed
qed

lemma nest_frame_obj:
  assumes "JObj s = nest ks v" and "apart p ks"
  shows "getPath p (JObj (mergeDeep t s)) = getPath p (JObj t)"
proof -
  have "JObj (mergeDeep t s) = mergeValue (Some (JObj t)) (nest ks v)"
    unfolding assms(1) [symmetric] by simp
  then show ?thesis using nest_frame [OF assms(2), of "Some (JObj t)" v] by simp
qed

lemma siteData_nest: "JObj (siteData rs) = nest scope (JObj rs)"
  by (simp add: siteData_def scope_def)

lemma impData_nest: "JObj (impData info) = nest impScope info"
  by (simp add: impData_def impScope_def)

lemma frame_entries:
  "(\<And>k v. (k, v) \<in> set s \<Longrightarrow> v = nest q x \<and> apart p (k # q)) \<Longrightarrow>
   getPath p (JObj (mergeDeep t s)) = getPath p (JObj t)"
proof (induction s arbitrary: t)
  case Nil
  then show ?case by simp
next
  case (Cons kv s)
  obtain k v where kv: "kv = (k, v)" by (cases kv)
  have h: "v = nest q x \<and> apart p (k # q)" using Cons.prems [of k v] kv by simp
  have one: "JObj [(k, v)] = nest (k # q) x" using h by simp
  have rest: "\<And>k v. (k, v) \<in> set s \<Longrightarrow> v = nest q x \<and> apart p (k # q)"
    by (rule Cons.prems) simp
  have step: "mergeDeep t (kv # s) = mergeDeep (mergeDeep t [(k, v)]) s"
    by (simp add: kv)
  have "getPath p (JObj (mergeDeep t (kv # s))) = getPath p (JObj (mergeDeep t [(k, v)]))"
    unfolding step by (rule Cons.IH [OF rest])
  also have "\<dots> = getPath p (JObj t)"
    using nest_frame_obj [OF one] h by blast
  finally show ?case .
qed

lemma set_update_cases:
  "(k, v) \<in> set (AList.update b x acc) \<Longrightarrow> (k, v) \<in> set acc \<or> (k = b \<and> v = x)"
  by (induction acc) (auto split: if_splits)

lemma bidderConfig_entries_aux:
  "(k, v) \<in> set (foldl (\<lambda>acc b. AList.update b x acc) acc bs) \<Longrightarrow>
   (k, v) \<in> set acc \<or> (v = x \<and> k \<in> set bs)"
proof (induction bs arbitrary: acc)
  case Nil
  then show ?case by simp
next
  case (Cons b bs)
  from Cons.IH [OF Cons.prems [simplified]]
  show ?case
    using set_update_cases [of k v b x acc] by auto
qed

lemma bidderConfig_entries:
  "(k, v) \<in> set (bidderConfig bs P) \<Longrightarrow> v = JObj P \<and> k \<in> set bs"
  unfolding bidderConfig_def using bidderConfig_entries_aux [of k v "JObj P" "[]" bs] by simp

lemma bidderConfig_distinct_aux:
  "distinct (map fst acc) \<Longrightarrow> distinct (map fst (foldl (\<lambda>acc b. AList.update b x acc) acc bs))"
  by (induction bs arbitrary: acc) (simp_all add: distinct_update)

lemma wf_obj_iff: "wf_obj s \<longleftrightarrow> distinct (map fst s) \<and> (\<forall>(k, v) \<in> set s. wf_jv v)"
  by (induction s) fastforce+

lemma wf_bidderConfig:
  assumes "wf_obj P"
  shows "wf_obj (bidderConfig bs P)"
proof -
  have d: "distinct (map fst (bidderConfig bs P))"
    unfolding bidderConfig_def by (rule bidderConfig_distinct_aux) simp
  have v: "\<forall>(k, v) \<in> set (bidderConfig bs P). wf_jv v"
    using bidderConfig_entries [of _ _ bs P] assms by fastforce
  show ?thesis using d v by (simp add: wf_obj_iff)
qed

text \<open>Reading a path after a merge.\<close>

lemma mergeDeep_lookup:
  "distinct (map fst s) \<Longrightarrow>
   map_of (mergeDeep t s) k =
     (case map_of s k of None \<Rightarrow> map_of t k | Some v \<Rightarrow> Some (mergeValue (map_of t k) v))"
proof (induction s arbitrary: t)
  case Nil
  then show ?case by simp
next
  case (Cons kv s)
  obtain k0 v0 where kv: "kv = (k0, v0)" by (cases kv)
  have d: "distinct (map fst s)" and n: "k0 \<notin> fst ` set s"
    using Cons.prems kv by auto
  have none: "map_of s k0 = None"
    using n by (simp add: map_of_eq_None_iff)
  show ?case
    unfolding kv using Cons.IH [OF d, of "AList.update k0 (mergeValue (map_of t k0) v0) t"] none
    by (auto simp: update_conv' split: option.splits)
qed

lemma objOf_lookup:
  "map_of (case old of Some (JObj os) \<Rightarrow> os | _ \<Rightarrow> []) k = Option.bind old (getPath [k])"
  by (auto split: option.splits jv.splits)

lemma getPath_Cons_bind:
  "Option.bind old (getPath (k # ks))
     = Option.bind (map_of (case old of Some (JObj os) \<Rightarrow> os | _ \<Rightarrow> []) k) (getPath ks)"
  by (auto split: option.splits jv.splits)

lemma getPath_append: "getPath (a @ b) v = Option.bind (getPath a v) (getPath b)"
proof (induction a arbitrary: v)
  case Nil
  then show ?case by simp
next
  case (Cons k a)
  then show ?case by (cases v) (auto split: option.splits)
qed

lemma getPath_nest_merge:
  "getPath (ks @ p) (mergeValue old (nest ks v))
     = getPath p (mergeValue (Option.bind old (getPath ks)) v)"
proof (induction ks arbitrary: old)
  case Nil
  then show ?case by simp
next
  case (Cons k ks)
  show ?case
    unfolding getPath_Cons_bind
    using Cons.IH [of "map_of (case old of Some (JObj os) \<Rightarrow> os | _ \<Rightarrow> []) k"]
    by (simp add: update_conv')
qed

subsection \<open>Which fragment is written\<close>

lemma globalRuns_iff:
  "globalRuns cfg \<longleftrightarrow>
     globalEnabled cfg \<and> (isEmptyParam (biddersOf cfg) \<or> \<not> isArray (biddersOf cfg))"
  by (auto simp: globalRuns_def isEmptyParam_def isEmpty_def isArray_def split: param.splits)

lemma not_both: "\<not> (globalRuns cfg \<and> biddersRun cfg)"
  by (auto simp: globalRuns_def biddersRun_def)

lemma addGlobal_explicit:
  "addGlobal P cfg r =
     (if globalRuns cfg \<and> ortb2Fragments r = None then Inl TypeError
      else Inr (r\<lparr>ortb2Fragments :=
                   map_option (\<lambda>f. f\<lparr>frag_global := mergedGlobal P cfg (frag_global f)\<rparr>)
                     (ortb2Fragments r)\<rparr>))"
  by (cases "ortb2Fragments r")
     (auto simp: addGlobal_def globalRuns_iff [symmetric] mergedGlobal_def)

lemma addBidders_explicit:
  "addBidders P cfg r =
     (if biddersRun cfg \<and> ortb2Fragments r = None then Inl TypeError
      else Inr (r\<lparr>ortb2Fragments :=
                   map_option (\<lambda>f. f\<lparr>frag_bidder := mergedBidder P cfg (frag_bidder f)\<rparr>)
                     (ortb2Fragments r)\<rparr>))"
  by (cases "ortb2Fragments r")
     (auto simp: addBidders_def biddersRun_def mergedBidder_def neq_Nil_conv split: param.splits)

lemma addImpLevel_explicit:
  "addImpLevel body cfg r = r\<lparr>adUnits := mergedUnits body cfg (adUnits r)\<rparr>"
  by (cases "adUnits r") (auto simp: addImpLevel_def mergedUnits_def)

lemma add_explicit:
  "addStretchDataToORTB2 c r sd cfg =
     (if (globalRuns cfg \<or> biddersRun cfg) \<and> ortb2Fragments r = None then Inl TypeError
      else Inr (written (stretchPayload c sd) (addImp sd) cfg r))"
  by (cases "ortb2Fragments r")
     (auto simp: addStretchDataToORTB2_def addGlobal_explicit addBidders_explicit
        addImpLevel_explicit written_def)

lemma add_1_explicit:
  "addStretchDataToORTB2_1 c r sd cfg =
     (if (globalRuns cfg \<or> biddersRun cfg) \<and> ortb2Fragments r = None then Inl TypeError
      else Inr (written (stretchPayload_1 c sd) (addImp_1 sd) cfg r))"
  by (cases "ortb2Fragments r")
     (auto simp: addStretchDataToORTB2_1_def addGlobal_explicit addBidders_explicit
        addImpLevel_explicit written_def)


lemma written_fragments:
  "ortb2Fragments r = Some f \<Longrightarrow>
   ortb2Fragments (written P body cfg r)
     = Some \<lparr>frag_global = mergedGlobal P cfg (frag_global f),
             frag_bidder = mergedBidder P cfg (frag_bidder f)\<rparr>"
  by (simp add: written_def)

lemma exclusiveWrite_merged:
  "exclusiveWrite P cfg f
     \<lparr>frag_global = mergedGlobal P cfg (frag_global f),
      frag_bidder = mergedBidder P cfg (frag_bidder f)\<rparr>"
  by (auto simp: exclusiveWrite_def mergedGlobal_def mergedBidder_def globalRuns_def
      isArray_def neq_Nil_conv split: param.splits)

text \<open>
  Claim C10. In one call of \<^verbatim>\<open>addStretchDataToORTB2\<close> (either copy) on a request that
  has its fragments, the call returns and the global merge and the bidder merge never both
  happen: the global fragment receives the payload only when the global flag is not
  \<^verbatim>\<open>false\<close> and \<open>bidders\<close> is an empty array or not an array, the bidder fragment only
  when \<open>bidders\<close> is a non-empty array, and a non-empty array leaves the global fragment as
  it was whatever the global flag says.
\<close>

theorem fragment_writes_exclusive:
  assumes "ortb2Fragments r = Some f"
  shows "(\<exists>r' f'. addStretchDataToORTB2 c r sd cfg = Inr r' \<and> ortb2Fragments r' = Some f'
            \<and> exclusiveWrite (stretchPayload c sd) cfg f f')
       \<and> (\<exists>r' f'. addStretchDataToORTB2_1 c r sd cfg = Inr r' \<and> ortb2Fragments r' = Some f'
            \<and> exclusiveWrite (stretchPayload_1 c sd) cfg f f')"
  using assms
  by (simp add: add_explicit add_1_explicit written_fragments exclusiveWrite_merged)

theorem fragment_writes_exclusive_witness:
  "ortb2Fragments testReq = Some \<lparr>frag_global = [], frag_bidder = []\<rparr>
   \<and> biddersOf testConfig = PArr [''appnexus''] \<and> globalEnabled testConfig
   \<and> (\<exists>r' f'. addStretchDataToORTB2 testClock testReq testData testConfig = Inr r'
         \<and> ortb2Fragments r' = Some f' \<and> frag_global f' = []
         \<and> frag_bidder f' = mergeDeep [] (bidderConfig [''appnexus''] (stretchPayload testClock testData)))"
proof -
  have a: "ortb2Fragments testReq = Some \<lparr>frag_global = [], frag_bidder = []\<rparr>"
    by (simp add: testReq_def)
  have b: "biddersOf testConfig = PArr [''appnexus'']"
    by (simp add: biddersOf_def testConfig_def truthyParam_def)
  have g: "globalEnabled testConfig"
    by (simp add: globalEnabled_def testConfig_def)
  show ?thesis
    using fragment_writes_exclusive [OF a, of testClock testData testConfig] a b g
    by (auto simp: exclusiveWrite_def)
qed

subsection \<open>What the merge leaves alone\<close>

lemma testReq_runs:
  "\<not> ((globalRuns testConfig \<or> biddersRun testConfig) \<and> ortb2Fragments testReq = None)"
  by (simp add: testReq_def)

text \<open>
  Claim C9, as stated, fails on the first copy: besides the three paths it writes
  \<^verbatim>\<open>banner.wmax\<close> into the slot's \<^verbatim>\<open>ortb2Imp\<close>. For the test request and the first
  copy's record of the test slot, \<^verbatim>\<open>banner.wmax\<close> is missing before the call and 300
  after it.
\<close>

theorem banner_wmax_counterexample:
  "apart wmaxScope impScope
   \<and> map_option (map (\<lambda>u. getPath wmaxScope (JObj (orEmpty (ortb2Imp u))))) (adUnits testReq)
       = Some [None]
   \<and> (case addStretchDataToORTB2_1 testClock testReq testData_1 testConfig of
         Inl e \<Rightarrow> None
       | Inr r' \<Rightarrow> map_option (map (\<lambda>u. getPath wmaxScope (JObj (orEmpty (ortb2Imp u))))) (adUnits r'))
       = Some [Some (JNum (Finite 300))]"
proof -
  have a: "apart wmaxScope impScope"
    by (simp add: apart_def wmaxScope_def impScope_def)
  have b: "map_option (map (\<lambda>u. getPath wmaxScope (JObj (orEmpty (ortb2Imp u))))) (adUnits testReq)
       = Some [None]"
    by (simp add: testReq_def wmaxScope_def orEmpty_def)
  have i: "impLevelEnabled testConfig"
    by (simp add: impLevelEnabled_def testConfig_def)
  have f: "\<lfloor>(601::rat) / 2\<rfloor> = 300" by (simp add: floor_eq_iff)
  have u: "addImp_1 testData_1 \<lparr>code = ''ad-unit-1'', ortb2Imp = Some [], adUnit_other = []\<rparr>
     = \<lparr>code = ''ad-unit-1'',
        ortb2Imp = Some [(''ext'', JObj [(''data'', JObj [(''responsiveStretch'',
                            JObj (availableSpace_1 testBox testViewport (Finite 300)))])]),
                         (''banner'', JObj [(''wmax'', JNum (Finite 300))])],
        adUnit_other = []\<rparr>"
    by (simp add: addImp_1_def testData_1_def truthy_def impData_1_def property_def
        availableSpace_1_def impData_def orEmpty_def truthyNum_def rnd_def f)
  have c: "(case addStretchDataToORTB2_1 testClock testReq testData_1 testConfig of
         Inl e \<Rightarrow> None
       | Inr r' \<Rightarrow> map_option (map (\<lambda>u. getPath wmaxScope (JObj (orEmpty (ortb2Imp u))))) (adUnits r'))
       = Some [Some (JNum (Finite 300))]"
    using testReq_runs
    by (simp add: add_1_explicit written_def mergedUnits_def i)
       (simp add: testReq_def u wmaxScope_def orEmpty_def)
  show ?thesis using a b c by blast
qed

lemma sameOutside_refl: "sameOutside S t t"
  by (simp add: sameOutside_def)

lemma sameOutside_trans:
  "sameOutside S t t' \<Longrightarrow> sameOutside S t' t'' \<Longrightarrow> sameOutside S t t''"
  by (simp add: sameOutside_def)

lemma sameOutside_nest:
  "JObj s = nest q v \<Longrightarrow> q \<in> S \<Longrightarrow> sameOutside S t (mergeDeep t s)"
  unfolding sameOutside_def using nest_frame_obj by blast

lemma stretchPayload_siteData:
  "\<exists>rs. stretchPayload c sd = siteData rs" "\<exists>rs. stretchPayload_1 c sd = siteData rs"
  unfolding stretchPayload_def stretchPayload_1_def by blast+

lemma global_frame:
  "P = siteData rs \<Longrightarrow> sameOutside {scope} g (mergedGlobal P cfg g)"
  by (simp add: mergedGlobal_def sameOutside_refl sameOutside_nest [OF siteData_nest])

lemma bidder_frame:
  assumes "P = siteData rs"
  shows "sameOutside ((\<lambda>b. b # scope) ` namedBidders cfg) t (mergedBidder P cfg t)"
proof (cases "biddersOf cfg")
  case (PArr bs)
  have "sameOutside ((\<lambda>b. b # scope) ` set bs) t (mergeDeep t (bidderConfig bs P))"
    unfolding sameOutside_def
  proof (intro allI impI)
    fix p
    assume ap: "\<forall>q \<in> (\<lambda>b. b # scope) ` set bs. apart p q"
    show "getPath p (JObj (mergeDeep t (bidderConfig bs P))) = getPath p (JObj t)"
    proof (rule frame_entries [where q = scope and x = "JObj rs"])
      fix k v
      assume "(k, v) \<in> set (bidderConfig bs P)"
      then have "v = JObj P" "k \<in> set bs" using bidderConfig_entries by blast+
      then show "v = nest scope (JObj rs) \<and> apart p (k # scope)"
        using ap assms siteData_nest by auto
    qed
  qed
  then show ?thesis
    using PArr by (simp add: mergedBidder_def namedBidders_def sameOutside_refl)
qed (simp_all add: mergedBidder_def sameOutside_refl)

lemma addImp_frame:
  "code (addImp sd u) = code u \<and> adUnit_other (addImp sd u) = adUnit_other u
   \<and> sameOutside {impScope} (orEmpty (ortb2Imp u)) (orEmpty (ortb2Imp (addImp sd u)))"
  by (auto simp: addImp_def orEmpty_def sameOutside_refl sameOutside_nest [OF impData_nest]
      split: option.splits)

lemma wmax_nest: "JObj [(''banner'', JObj [(''wmax'', w)])] = nest wmaxScope w"
  by (simp add: wmaxScope_def)

lemma impData_1_frame:
  "sameOutside {impScope, wmaxScope} t (mergeDeep t (impData_1 info))"
proof -
  have a: "sameOutside {impScope, wmaxScope} t (mergeDeep t (impData info))"
    by (rule sameOutside_nest [OF impData_nest]) simp
  have b: "sameOutside {impScope, wmaxScope} (mergeDeep t (impData info))
             (mergeDeep (mergeDeep t (impData info)) [(''banner'', JObj [(''wmax'', w)])])" for w
    by (rule sameOutside_nest [OF wmax_nest]) simp
  show ?thesis
    using a sameOutside_trans [OF a b]
    by (auto simp: impData_1_def mergeDeep_append split: option.splits)
qed

lemma units_frame:
  assumes "\<And>u. code (body u) = code u \<and> adUnit_other (body u) = adUnit_other u
     \<and> sameOutside S (orEmpty (ortb2Imp u)) (orEmpty (ortb2Imp (body u)))"
  shows "rel_option
          (list_all2
             (\<lambda>u u'. code u' = code u \<and> adUnit_other u' = adUnit_other u
                    \<and> sameOutside S (orEmpty (ortb2Imp u)) (orEmpty (ortb2Imp u'))))
          us (mergedUnits body cfg us)"
proof (cases us)
  case None
  then show ?thesis by (simp add: mergedUnits_def)
next
  case (Some l)
  have m: "list_all2 (\<lambda>u u'. code u' = code u \<and> adUnit_other u' = adUnit_other u
                    \<and> sameOutside S (orEmpty (ortb2Imp u)) (orEmpty (ortb2Imp u'))) l (map body l)"
    using assms by (simp add: list_all2_conv_all_nth)
  have r: "list_all2 (\<lambda>u u'. code u' = code u \<and> adUnit_other u' = adUnit_other u
                    \<and> sameOutside S (orEmpty (ortb2Imp u)) (orEmpty (ortb2Imp u'))) l l"
    by (simp add: list_all2_conv_all_nth sameOutside_refl)
  show ?thesis using Some m r by (simp add: mergedUnits_def)
qed

lemma written_frame:
  assumes "P = siteData rs"
    and "\<And>u. code (body u) = code u \<and> adUnit_other (body u) = adUnit_other u
     \<and> sameOutside S (orEmpty (ortb2Imp u)) (orEmpty (ortb2Imp (body u)))"
  shows "unchangedOutside S cfg r (written P body cfg r)"
  unfolding unchangedOutside_def
  using units_frame [of body S "adUnits r" cfg, OF assms(2)]
    global_frame [OF assms(1)] bidder_frame [OF assms(1)]
  by (cases "ortb2Fragments r") (simp_all add: written_def)

lemma wmax_written:
  "getPath wmaxScope (JObj (mergeDeep t [(''banner'', JObj [(''wmax'', w)])]))
     = Some (mergeValue (getPath wmaxScope (JObj t)) w)"
proof -
  have "JObj (mergeDeep t [(''banner'', JObj [(''wmax'', w)])])
          = mergeValue (Some (JObj t)) (nest wmaxScope w)"
    by (simp add: wmaxScope_def)
  then show ?thesis
    using getPath_nest_merge [of wmaxScope "[]" "Some (JObj t)" w] by simp
qed

lemma impData_wmax_apart:
  "getPath wmaxScope (JObj (mergeDeep t (impData info))) = getPath wmaxScope (JObj t)"
proof -
  have "sameOutside {impScope} t (mergeDeep t (impData info))"
    by (rule sameOutside_nest [OF impData_nest]) simp
  moreover have "apart wmaxScope impScope"
    by (simp add: apart_def wmaxScope_def impScope_def)
  ultimately show ?thesis by (simp add: sameOutside_def)
qed

lemma addImp_1_write:
  assumes "impLevelEnabled cfg"
  shows "code (addImp_1 sd u) = code u \<and> adUnit_other (addImp_1 sd u) = adUnit_other u
     \<and> (case wmaxOf cfg sd u of
           None \<Rightarrow>
             sameOutside {impScope} (orEmpty (ortb2Imp u)) (orEmpty (ortb2Imp (addImp_1 sd u)))
         | Some w \<Rightarrow>
             sameOutside {impScope, wmaxScope}
               (orEmpty (ortb2Imp u)) (orEmpty (ortb2Imp (addImp_1 sd u)))
             \<and> getPath wmaxScope (JObj (orEmpty (ortb2Imp (addImp_1 sd u))))
                 = Some (mergeValue (getPath wmaxScope (JObj (orEmpty (ortb2Imp u)))) w))"
proof -
  have plain: "sameOutside {impScope} t (mergeDeep t (impData info))" for t info
    by (rule sameOutside_nest [OF impData_nest]) simp
  have val: "getPath wmaxScope
               (JObj (mergeDeep t (impData info @ [(''banner'', JObj [(''wmax'', w)])])))
             = Some (mergeValue (getPath wmaxScope (JObj t)) w)" for t info w
    by (simp only: mergeDeep_append wmax_written impData_wmax_apart)
  show ?thesis
    using assms impData_1_frame
    by (auto simp: addImp_1_def wmaxOf_def impData_1_def orEmpty_def sameOutside_refl plain val
        simp del: mergeValue.simps getPath.simps
        split: option.splits)
qed

lemma wmaxOf_disabled: "\<not> impLevelEnabled cfg \<Longrightarrow> wmaxOf cfg sd u = None"
  by (simp add: wmaxOf_def)

lemma units_rel:
  assumes "\<And>u. impLevelEnabled cfg \<Longrightarrow> R u (body u)"
    and "\<And>u. \<not> impLevelEnabled cfg \<Longrightarrow> R u u"
  shows "rel_option (list_all2 R) us (mergedUnits body cfg us)"
proof (cases us)
  case None
  then show ?thesis by (simp add: mergedUnits_def)
next
  case (Some l)
  show ?thesis
    using Some assms by (cases "impLevelEnabled cfg") (simp_all add: mergedUnits_def list_all2_conv_all_nth)
qed

lemma written_frame_1:
  assumes "P = siteData rs"
  shows "unchangedOutside_1 sd cfg r (written P (addImp_1 sd) cfg r)"
proof -
  define R where "R = (\<lambda>(u::adUnit) (u'::adUnit). code u' = code u \<and> adUnit_other u' = adUnit_other u
      \<and> (case wmaxOf cfg sd u of
           None \<Rightarrow> sameOutside {impScope} (orEmpty (ortb2Imp u)) (orEmpty (ortb2Imp u'))
         | Some w \<Rightarrow>
             sameOutside {impScope, wmaxScope} (orEmpty (ortb2Imp u)) (orEmpty (ortb2Imp u'))
             \<and> getPath wmaxScope (JObj (orEmpty (ortb2Imp u')))
                 = Some (mergeValue (getPath wmaxScope (JObj (orEmpty (ortb2Imp u)))) w)))"
  have a: "impLevelEnabled cfg \<Longrightarrow> R u (addImp_1 sd u)" for u
    unfolding R_def by (rule addImp_1_write)
  have b: "\<not> impLevelEnabled cfg \<Longrightarrow> R u u" for u
    unfolding R_def by (simp add: wmaxOf_disabled sameOutside_refl)
  have u: "rel_option (list_all2 R) (adUnits r) (mergedUnits (addImp_1 sd) cfg (adUnits r))"
    using a b by (rule units_rel)
  show ?thesis
    unfolding unchangedOutside_1_def
    using u [unfolded R_def] global_frame [OF assms] bidder_frame [OF assms]
    by (cases "ortb2Fragments r") (simp_all add: written_def)
qed

text \<open>
  Claim C9, amended. A call of \<^verbatim>\<open>addStretchDataToORTB2\<close> that returns leaves the request
  unchanged outside the module's paths: outside \<^verbatim>\<open>site.ext.data.responsiveStretch\<close> in
  the global fragment, outside that path under each named bidder in the bidder fragment,
  and in every ad unit outside \<^verbatim>\<open>ext.data.responsiveStretch\<close> of its \<^verbatim>\<open>ortb2Imp\<close>. The
  first copy writes one more path: when the impression level is enabled and the unit's
  measurement has a \<^verbatim>\<open>maxAvailableWidth\<close> that is truthy and not \<^verbatim>\<open>Infinity\<close>, that value
  is merged into \<^verbatim>\<open>banner.wmax\<close> of the unit's \<^verbatim>\<open>ortb2Imp\<close>; otherwise (no measurement,
  a missing value, 0 or \<^verbatim>\<open>Infinity\<close>) \<^verbatim>\<open>banner\<close> stays as it was. The code and the other keys
  of every ad unit and the other keys of the request stay as they were.
\<close>

theorem merge_writes_only_its_paths:
  "(addStretchDataToORTB2 c r sd cfg = Inr r' \<longrightarrow> unchangedOutside {impScope} cfg r r')
   \<and> (addStretchDataToORTB2_1 c r sd cfg = Inr r1 \<longrightarrow> unchangedOutside_1 sd cfg r r1)"
proof -
  obtain rs where p: "stretchPayload c sd = siteData rs"
    using stretchPayload_siteData(1) by blast
  obtain rs1 where p1: "stretchPayload_1 c sd = siteData rs1"
    using stretchPayload_siteData(2) by blast
  show ?thesis
    using written_frame [OF p addImp_frame, where cfg = cfg and r = r]
      written_frame_1 [OF p1, where cfg = cfg and r = r and sd = sd]
    by (auto simp: add_explicit add_1_explicit split: if_splits)
qed

theorem merge_writes_only_its_paths_witness:
  "addStretchDataToORTB2 testClock testReq testData testConfig
     = Inr (written (stretchPayload testClock testData) (addImp testData) testConfig testReq)
   \<and> unchangedOutside {impScope} testConfig testReq
        (written (stretchPayload testClock testData) (addImp testData) testConfig testReq)
   \<and> addStretchDataToORTB2_1 testClock testReq testData_1 testConfig
     = Inr (written (stretchPayload_1 testClock testData_1) (addImp_1 testData_1) testConfig testReq)
   \<and> unchangedOutside_1 testData_1 testConfig testReq
        (written (stretchPayload_1 testClock testData_1) (addImp_1 testData_1) testConfig testReq)
   \<and> wmaxOf testConfig testData_1 \<lparr>code = ''ad-unit-1'', ortb2Imp = Some [], adUnit_other = []\<rparr>
     = Some (JNum (Finite 300))
   \<and> addStretchDataToORTB2_1 testClock testReq unboundedData_1 testConfig
     = Inr (written (stretchPayload_1 testClock unboundedData_1) (addImp_1 unboundedData_1)
              testConfig testReq)
   \<and> unchangedOutside_1 unboundedData_1 testConfig testReq
        (written (stretchPayload_1 testClock unboundedData_1) (addImp_1 unboundedData_1)
           testConfig testReq)
   \<and> wmaxOf testConfig unboundedData_1
        \<lparr>code = ''ad-unit-1'', ortb2Imp = Some [], adUnit_other = []\<rparr> = None"
proof -
  have a: "addStretchDataToORTB2 testClock testReq testData testConfig
     = Inr (written (stretchPayload testClock testData) (addImp testData) testConfig testReq)"
    using testReq_runs by (simp add: add_explicit)
  have b: "addStretchDataToORTB2_1 testClock testReq sd testConfig
     = Inr (written (stretchPayload_1 testClock sd) (addImp_1 sd) testConfig testReq)" for sd
    using testReq_runs by (simp add: add_1_explicit)
  have i: "impLevelEnabled testConfig"
    by (simp add: impLevelEnabled_def testConfig_def)
  have f: "\<lfloor>(601::rat) / 2\<rfloor> = 300" by (simp add: floor_eq_iff)
  have w: "wmaxOf testConfig testData_1
             \<lparr>code = ''ad-unit-1'', ortb2Imp = Some [], adUnit_other = []\<rparr>
           = Some (JNum (Finite 300))"
    by (simp add: wmaxOf_def i testData_1_def availableSpace_1_def truthy_def truthyNum_def
        property_def f)
  have n: "wmaxOf testConfig unboundedData_1
             \<lparr>code = ''ad-unit-1'', ortb2Imp = Some [], adUnit_other = []\<rparr> = None"
    by (simp add: wmaxOf_def i unboundedData_1_def availableSpace_1_def truthy_def truthyNum_def
        property_def)
  show ?thesis
    using a b [of testData_1] b [of unboundedData_1] w n
      merge_writes_only_its_paths [where c = testClock and r = testReq and sd = testData and cfg = testConfig
           and r' = "written (stretchPayload testClock testData) (addImp testData) testConfig testReq"]
      merge_writes_only_its_paths [where c = testClock and r = testReq and sd = testData_1 and cfg = testConfig
           and ?r1.0 = "written (stretchPayload_1 testClock testData_1) (addImp_1 testData_1) testConfig testReq"]
      merge_writes_only_its_paths [where c = testClock and r = testReq and sd = unboundedData_1 and cfg = testConfig
           and ?r1.0 = "written (stretchPayload_1 testClock unboundedData_1) (addImp_1 unboundedData_1) testConfig testReq"]
    by blast
qed

subsection \<open>Merging twice\<close>

lemma adUnits_after:
  "getPath (scope @ [''adUnits'']) (mergeValue old (JObj (stretchPayload c sd)))
     = Some (mergeValue (Option.bind old (getPath (scope @ [''adUnits'']))) (JObj sd))"
proof -
  define rs where "rs = [(''viewport'', JObj [(''width'', JNum (Finite (vp_width (viewport c)))),
                            (''height'', JNum (Finite (vp_height (viewport c))))]),
        (''adUnits'', JObj sd),
        (''timestamp'', JNum (Finite (of_int (now c))))]"
  define o' where "o' = Option.bind old (getPath scope)"
  have p: "JObj (stretchPayload c sd) = nest scope (JObj rs)"
    by (simp add: stretchPayload_def rs_def siteData_nest)
  have d: "distinct (map fst rs)" and l: "map_of rs ''adUnits'' = Some (JObj sd)"
    by (simp_all add: rs_def)
  have "getPath (scope @ [''adUnits'']) (mergeValue old (JObj (stretchPayload c sd)))
          = getPath [''adUnits''] (mergeValue o' (JObj rs))"
    unfolding p o'_def by (rule getPath_nest_merge)
  also have "\<dots> = map_of (mergeDeep (case o' of Some (JObj os) \<Rightarrow> os | _ \<Rightarrow> []) rs) ''adUnits''"
    by (simp split: option.splits)
  also have "\<dots> = Some (mergeValue (Option.bind o' (getPath [''adUnits''])) (JObj sd))"
    by (simp add: mergeDeep_lookup [OF d] l objOf_lookup)
  also have "Option.bind o' (getPath [''adUnits'']) = Option.bind old (getPath (scope @ [''adUnits'']))"
    unfolding o'_def by (cases old) (simp_all add: getPath_append)
  finally show ?thesis .
qed

lemma wf_lookup: "wf_obj s \<Longrightarrow> map_of s k = Some v \<Longrightarrow> wf_jv v"
  by (auto simp: wf_obj_iff dest: map_of_SomeD)

lemma wf_stretchPayload: "wf_obj sd \<Longrightarrow> wf_obj (stretchPayload c sd)"
  by (simp add: stretchPayload_def siteData_def)

lemma mergedGlobal_idem: "wf_obj P \<Longrightarrow> mergedGlobal P cfg (mergedGlobal P cfg g) = mergedGlobal P cfg g"
  by (simp add: mergedGlobal_def mergeDeep_idem)

lemma mergedBidder_idem: "wf_obj P \<Longrightarrow> mergedBidder P cfg (mergedBidder P cfg b) = mergedBidder P cfg b"
  by (simp add: mergedBidder_def mergeDeep_idem wf_bidderConfig split: param.splits)

lemma wf_impData: "wf_jv info \<Longrightarrow> wf_obj (impData info)"
  by (simp add: impData_def)

lemma addImp_idem:
  assumes "wf_obj sd"
  shows "addImp sd (addImp sd u) = addImp sd u"
proof (cases "map_of sd (code u)")
  case None
  then show ?thesis by (simp add: addImp_def)
next
  case (Some info)
  have w: "wf_obj (impData info)"
    using wf_lookup [OF assms Some] by (rule wf_impData)
  show ?thesis
  proof (cases "truthy info")
    case True
    then show ?thesis
      using Some by (simp add: addImp_def orEmpty_def mergeDeep_idem [OF w])
  next
    case False
    then show ?thesis using Some by (simp add: addImp_def)
  qed
qed

lemma mergedUnits_idem:
  "wf_obj sd \<Longrightarrow> mergedUnits (addImp sd) cfg (mergedUnits (addImp sd) cfg us)
     = mergedUnits (addImp sd) cfg us"
  by (cases us) (simp_all add: mergedUnits_def addImp_idem)

lemma written_idem:
  "wf_obj P \<Longrightarrow> wf_obj sd \<Longrightarrow>
   written P (addImp sd) cfg (written P (addImp sd) cfg r) = written P (addImp sd) cfg r"
  by (cases "ortb2Fragments r")
     (simp_all add: written_def mergedGlobal_idem mergedBidder_idem mergedUnits_idem)

lemma written_None [simp]:
  "ortb2Fragments (written P body cfg r) = None \<longleftrightarrow> ortb2Fragments r = None"
  by (simp add: written_def)

lemma bidderConfig_lookup_aux:
  "map_of (foldl (\<lambda>acc b. AList.update b x acc) acc bs) k
     = (if k \<in> set bs then Some x else map_of acc k)"
  by (induction bs arbitrary: acc) (auto simp: update_conv')

lemma bidderConfig_lookup:
  "map_of (bidderConfig bs P) k = (if k \<in> set bs then Some (JObj P) else None)"
  by (simp add: bidderConfig_def bidderConfig_lookup_aux)

lemma bidderConfig_distinct: "distinct (map fst (bidderConfig bs P))"
  unfolding bidderConfig_def by (rule bidderConfig_distinct_aux) simp

lemma global_adUnits:
  "getPath (scope @ [''adUnits'']) (JObj (mergedGlobal (stretchPayload c sd) cfg g))
     = (if globalRuns cfg
        then Some (mergeValue (getPath (scope @ [''adUnits'']) (JObj g)) (JObj sd))
        else getPath (scope @ [''adUnits'']) (JObj g))"
proof -
  have "JObj (mergeDeep g (stretchPayload c sd)) = mergeValue (Some (JObj g)) (JObj (stretchPayload c sd))"
    by simp
  then show ?thesis
    unfolding mergedGlobal_def using adUnits_after [of "Some (JObj g)" c sd] by simp
qed

lemma bidder_adUnits:
  "getPath (b # scope @ [''adUnits'']) (JObj (mergedBidder (stretchPayload c sd) cfg t))
     = (if b \<in> namedBidders cfg
        then Some (mergeValue (getPath (b # scope @ [''adUnits'']) (JObj t)) (JObj sd))
        else getPath (b # scope @ [''adUnits'']) (JObj t))"
proof (cases "biddersOf cfg")
  case (PArr bs)
  show ?thesis
  proof (cases "b \<in> set bs")
    case True
    then have ne: "bs \<noteq> []" by auto
    have "map_of (mergeDeep t (bidderConfig bs (stretchPayload c sd))) b
            = Some (mergeValue (map_of t b) (JObj (stretchPayload c sd)))"
      using True by (simp add: mergeDeep_lookup [OF bidderConfig_distinct] bidderConfig_lookup)
    then have "getPath (b # scope @ [''adUnits''])
                 (JObj (mergeDeep t (bidderConfig bs (stretchPayload c sd))))
            = Some (mergeValue (Option.bind (map_of t b) (getPath (scope @ [''adUnits'']))) (JObj sd))"
      by (simp add: adUnits_after del: mergeValue.simps)
    moreover have "Option.bind (map_of t b) (getPath (scope @ [''adUnits'']))
            = getPath (b # scope @ [''adUnits'']) (JObj t)"
      by (simp split: option.splits)
    ultimately show ?thesis
      using PArr True ne by (simp add: mergedBidder_def namedBidders_def)
  next
    case False
    have "map_of (mergeDeep t (bidderConfig bs (stretchPayload c sd))) b = map_of t b"
      using False by (simp add: mergeDeep_lookup [OF bidderConfig_distinct] bidderConfig_lookup)
    then show ?thesis
      using PArr False by (simp add: mergedBidder_def namedBidders_def)
  qed
qed (simp_all add: mergedBidder_def namedBidders_def)

lemma global_adUnits_twice:
  assumes "wf_obj sd"
  shows "getPath (scope @ [''adUnits''])
           (JObj (mergedGlobal (stretchPayload c' sd) cfg (mergedGlobal (stretchPayload c sd) cfg g)))
       = getPath (scope @ [''adUnits'']) (JObj (mergedGlobal (stretchPayload c sd) cfg g))"
  using assms by (simp add: global_adUnits mergeValue_idem del: mergeValue.simps getPath.simps)

lemma bidder_adUnits_twice:
  assumes "wf_obj sd"
  shows "getPath (b # scope @ [''adUnits''])
           (JObj (mergedBidder (stretchPayload c' sd) cfg (mergedBidder (stretchPayload c sd) cfg t)))
       = getPath (b # scope @ [''adUnits'']) (JObj (mergedBidder (stretchPayload c sd) cfg t))"
  using assms by (simp add: bidder_adUnits mergeValue_idem del: mergeValue.simps getPath.simps)

text \<open>The maps \<^verbatim>\<open>collectResponsiveStretchData\<close> builds have each key once.\<close>

lemma wf_availableSpace: "wf_obj (availableSpace r vs p)"
  by (simp add: availableSpace_def rnd_def rndNum_def split: option.splits)

lemma wf_update:
  assumes "wf_obj s" and "wf_jv v"
  shows "wf_obj (AList.update k v s)"
proof -
  have d: "distinct (map fst (AList.update k v s))"
    using assms(1) by (simp add: wf_obj_iff distinct_update)
  have "wf_jv b" if "(a, b) \<in> set (AList.update k v s)" for a b
    using set_update_cases [OF that] assms by (auto simp: wf_obj_iff)
  then show ?thesis using d by (auto simp: wf_obj_iff)
qed

lemma wf_collectStep:
  "wf_obj acc \<Longrightarrow> wf_obj (collectStep (calculateAdSlotSpace vs) doc acc u)"
  by (auto simp: collectStep_def calculateAdSlotSpace_def measureBody_def wf_update
      wf_availableSpace split: option.splits sum.splits)

lemma wf_collect_aux:
  "wf_obj acc \<Longrightarrow> wf_obj (foldl (collectStep (calculateAdSlotSpace vs) doc) acc us)"
  by (induction us arbitrary: acc) (simp_all add: wf_collectStep)

lemma wf_collected: "wf_obj (collectResponsiveStretchData vs doc us)"
  by (cases us) (simp_all add: collectResponsiveStretchData_def wf_collect_aux)

text \<open>
  Claim C3. For a measurement map whose objects have each key once (as every JavaScript
  object has, and as the collected maps have in the model), a second call of
  \<^verbatim>\<open>addStretchDataToORTB2\<close> with the same map and configuration at the same instant
  leaves the request exactly as the first call left it. At a later instant (another
  timestamp, another viewport) it returns as well, the ad units with their impression
  payloads are those of the first call, the \<^verbatim>\<open>adUnits\<close> mapping under
  \<^verbatim>\<open>site.ext.data.responsiveStretch\<close> is the same in the global fragment and under every
  bidder, and nothing outside the module's paths differs.
\<close>

theorem merge_twice_as_once:
  assumes "wf_obj sd" and "addStretchDataToORTB2 c r sd cfg = Inr r1"
  shows "addStretchDataToORTB2 c r1 sd cfg = Inr r1
     \<and> (\<exists>r2. addStretchDataToORTB2 c' r1 sd cfg = Inr r2
          \<and> adUnits r2 = adUnits r1 \<and> req_other r2 = req_other r1
          \<and> unchangedOutside {impScope} cfg r1 r2
          \<and> rel_option
              (\<lambda>f1 f2.
                 getPath (scope @ [''adUnits'']) (JObj (frag_global f2))
                   = getPath (scope @ [''adUnits'']) (JObj (frag_global f1))
                 \<and> (\<forall>b. getPath (b # scope @ [''adUnits'']) (JObj (frag_bidder f2))
                          = getPath (b # scope @ [''adUnits'']) (JObj (frag_bidder f1))))
              (ortb2Fragments r1) (ortb2Fragments r2))"
proof -
  have ok: "\<not> ((globalRuns cfg \<or> biddersRun cfg) \<and> ortb2Fragments r = None)"
    and r1: "r1 = written (stretchPayload c sd) (addImp sd) cfg r"
    using assms(2) by (auto simp: add_explicit split: if_splits)
  have ok1: "\<not> ((globalRuns cfg \<or> biddersRun cfg) \<and> ortb2Fragments r1 = None)"
    using ok by (simp add: r1)
  have same: "addStretchDataToORTB2 c r1 sd cfg = Inr r1"
    using ok1 written_idem [OF wf_stretchPayload [OF assms(1)] assms(1), of c cfg r]
    by (simp add: add_explicit r1)
  define r2 where "r2 = written (stretchPayload c' sd) (addImp sd) cfg r1"
  have run2: "addStretchDataToORTB2 c' r1 sd cfg = Inr r2"
    using ok1 by (simp add: add_explicit r2_def)
  have units: "adUnits r2 = adUnits r1"
    unfolding r2_def r1 by (simp add: written_def mergedUnits_idem [OF assms(1)])
  have other: "req_other r2 = req_other r1"
    unfolding r2_def by (simp add: written_def)
  obtain rs where p: "stretchPayload c' sd = siteData rs"
    using stretchPayload_siteData(1) by blast
  have frame: "unchangedOutside {impScope} cfg r1 r2"
    unfolding r2_def by (rule written_frame [OF p addImp_frame])
  have frags: "rel_option
              (\<lambda>f1 f2.
                 getPath (scope @ [''adUnits'']) (JObj (frag_global f2))
                   = getPath (scope @ [''adUnits'']) (JObj (frag_global f1))
                 \<and> (\<forall>b. getPath (b # scope @ [''adUnits'']) (JObj (frag_bidder f2))
                          = getPath (b # scope @ [''adUnits'']) (JObj (frag_bidder f1))))
              (ortb2Fragments r1) (ortb2Fragments r2)"
    unfolding r2_def r1
    by (cases "ortb2Fragments r")
       (simp_all add: written_def global_adUnits_twice [OF assms(1)]
          bidder_adUnits_twice [OF assms(1)] del: getPath.simps)
  show ?thesis using same run2 units other frame frags by blast
qed

theorem merge_twice_as_once_witness:
  "wf_obj testData
   \<and> addStretchDataToORTB2 testClock testReq testData testConfig
     = Inr (written (stretchPayload testClock testData) (addImp testData) testConfig testReq)
   \<and> addStretchDataToORTB2 testClock
        (written (stretchPayload testClock testData) (addImp testData) testConfig testReq)
        testData testConfig
     = Inr (written (stretchPayload testClock testData) (addImp testData) testConfig testReq)
   \<and> (\<exists>r2. addStretchDataToORTB2 laterClock
               (written (stretchPayload testClock testData) (addImp testData) testConfig testReq)
               testData testConfig = Inr r2
        \<and> adUnits r2
            = adUnits (written (stretchPayload testClock testData) (addImp testData) testConfig testReq))"
proof -
  have w: "wf_obj testData" by (simp add: testData_def)
  have a: "addStretchDataToORTB2 testClock testReq testData testConfig
     = Inr (written (stretchPayload testClock testData) (addImp testData) testConfig testReq)"
    using testReq_runs by (simp add: add_explicit)
  show ?thesis
    using w a merge_twice_as_once [OF w a, of laterClock] by blast
qed

subsection \<open>The completion callback\<close>

text \<open>
  Claim C4, as stated, fails for a callback that raises when it is invoked: the
  \<^verbatim>\<open>callback()\<close> for a request without ad units stands inside the outer \<^verbatim>\<open>try\<close>,
  whose \<^verbatim>\<open>catch\<close> block invokes the callback again. In both copies it is invoked twice.
\<close>

theorem callback_counterexample:
  "calls emptyUnitsWorld = 0
   \<and> getBidRequestData_1 (collectCall_1 testViewport testDocument)
        (addCall_1 testClock None testConfig) None raising emptyUnitsWorld
       = (Some CallbackError, emptyUnitsWorld\<lparr>calls := 2\<rparr>)
   \<and> getBidRequestData None raising emptyUnitsWorld
       = (Some CallbackError, emptyUnitsWorld\<lparr>calls := 2\<rparr>)"
  by (simp add: getBidRequestData_1_def getBidRequestData_def emptyUnitsWorld_def adUnitsOf_def
      isEmpty_def invokeInTry_def invoke_def raising_def numeral_2_eq_2)

text \<open>
  Claim C4, amended. When the completion callback returns normally, one call of
  \<^verbatim>\<open>getBidRequestData\<close> invokes it exactly once and raises nothing, whatever the request
  (also \<^verbatim>\<open>null\<close>), with or without ad units, and whatever the collection and the merge
  do, raising included. In the first copy the callback has been invoked when the call
  returns; in the second copy it has been invoked once the timer has fired.
\<close>

theorem callback_once_when_it_returns:
  assumes "\<forall>n. \<not> cb n" and "timers w = []"
  shows "getBidRequestData_1 collectF addF globalAdUnits cb w
           = (None, snd (getBidRequestData_1 collectF addF globalAdUnits cb w))
     \<and> calls (snd (getBidRequestData_1 collectF addF globalAdUnits cb w)) = Suc (calls w)
     \<and> getBidRequestData globalAdUnits cb w = (None, snd (getBidRequestData globalAdUnits cb w))
     \<and> calls (timerTick collectF addF cb (snd (getBidRequestData globalAdUnits cb w)))
           = Suc (calls w)
     \<and> timers (timerTick collectF addF cb (snd (getBidRequestData globalAdUnits cb w))) = []"
proof -
  have inv: "invoke cb v = (None, v\<lparr>calls := Suc (calls v)\<rparr>)" for v
    using assms(1) by (simp add: invoke_def)
  have inTry: "invokeInTry cb v = (None, v\<lparr>calls := Suc (calls v)\<rparr>)" for v
    by (simp add: invokeInTry_def inv)
  have one: "getBidRequestData_1 collectF addF globalAdUnits cb w
           = (None, snd (getBidRequestData_1 collectF addF globalAdUnits cb w))
     \<and> calls (snd (getBidRequestData_1 collectF addF globalAdUnits cb w)) = Suc (calls w)"
    by (simp add: getBidRequestData_1_def inv inTry split: option.splits)
  have two: "getBidRequestData globalAdUnits cb w = (None, snd (getBidRequestData globalAdUnits cb w))"
    by (simp add: getBidRequestData_def inv inTry split: option.splits)
  have three: "calls (timerTick collectF addF cb (snd (getBidRequestData globalAdUnits cb w)))
           = Suc (calls w)
     \<and> timers (timerTick collectF addF cb (snd (getBidRequestData globalAdUnits cb w))) = []"
    using assms(2)
    by (simp add: getBidRequestData_def timerTick_def runTask_def inv inTry split: option.splits)
  show ?thesis using one two three by blast
qed

theorem callback_once_when_it_returns_witness:
  "(\<forall>n. \<not> returning n) \<and> timers testWorld = []
   \<and> calls (snd (getBidRequestData_1 (collectCall_1 testViewport testDocument)
                   (addCall_1 testClock None testConfig) None returning testWorld)) = 1
   \<and> calls (snd (getBidRequestData None returning testWorld)) = 0
   \<and> calls (timerTick (collectCall testViewport testDocument) (addCall testClock None testConfig)
              returning (snd (getBidRequestData None returning testWorld))) = 1"
proof -
  have a: "\<forall>n. \<not> returning n" by (simp add: returning_def)
  have b: "timers testWorld = []" by (simp add: testWorld_def)
  have c0: "calls testWorld = 0" by (simp add: testWorld_def)
  have z: "calls (snd (getBidRequestData None returning testWorld)) = 0"
    by (simp add: getBidRequestData_def testWorld_def testReq_def adUnitsOf_def isEmpty_def)
  have p1: "calls (snd (getBidRequestData_1 (collectCall_1 testViewport testDocument)
                   (addCall_1 testClock None testConfig) None returning testWorld)) = 1"
    using callback_once_when_it_returns [OF a b, of "collectCall_1 testViewport testDocument"
            "addCall_1 testClock None testConfig" None] c0
    by simp
  have p2: "calls (timerTick (collectCall testViewport testDocument) (addCall testClock None testConfig)
              returning (snd (getBidRequestData None returning testWorld))) = 1"
    using callback_once_when_it_returns [OF a b, of "collectCall testViewport testDocument"
            "addCall testClock None testConfig" None] c0
    by simp
  show ?thesis using a b z p1 p2 by blast
qed

end
